theory Spec2Isabelle
  imports Complex_Main
begin

section \<open>The image engine, as far as the pipeline uses it\<close>

text \<open>
  The pipeline builds deferred image expressions for a remote engine. The model gives
  each expression the value that the engine computes for it: an image is its ordered
  list of named bands together with its metadata properties, a computation that the
  engine rejects is an error value, and the engine's null (the first element of an empty
  collection) is \<open>None\<close>.
\<close>

datatype error =
    NullArgument string
  | BandNotFound string
  | NotAString string
  | KeyError string
  | ValueError string
  | RuntimeError string
  | AssertionError string
  | OtherError string

text \<open>
  What a band holds: a stored raster, a raster computed by a band formula from the bands
  of a source image, or a mosaic of several rasters. A band formula (\<open>ialg\<close>) is the
  image algebra that the index library writes: band selection, constants, the engine's
  normalized difference, an arithmetic expression over named operands (\<open>pexp\<close>, the
  parsed expression string), and the band-wise operations divide, subtract, where, eq.
\<close>

datatype pexp =
    Var string
  | Num real
  | Plus pexp pexp
  | Minus pexp pexp
  | Times pexp pexp
  | Over pexp pexp
  | Pow pexp nat
  | Sqrt pexp

datatype operand = Band string | Const real

datatype ialg =
    Select string
  | Constant real
  | NormalizedDifference string string
  | Expression pexp "(string \<times> operand) list"
  | Divide ialg ialg
  | Subtract ialg ialg
  | Where ialg ialg ialg
  | Eq ialg ialg

datatype raster =
    Stored nat
  | Computed ialg "(string \<times> raster) list"
  | Mosaic "raster list"

datatype propval = PStr string | PBool bool | PNum int

record image =
  bands :: "(string \<times> raster) list"
  props :: "string \<rightharpoonup> propval"

definition bandNames :: "'a image_scheme \<Rightarrow> string list" where
  "bandNames img = map fst (bands img)"

subsection \<open>Decimal numerals\<close>

definition digit_char :: "nat \<Rightarrow> char" where
  "digit_char n = char_of (48 + n)"

fun show_nat_aux :: "nat \<Rightarrow> nat \<Rightarrow> string" where
  "show_nat_aux 0 n = []"
| "show_nat_aux (Suc fuel) n =
     (if n < 10 then [digit_char n]
      else show_nat_aux fuel (n div 10) @ [digit_char (n mod 10)])"

definition show_nat :: "nat \<Rightarrow> string" where
  "show_nat n = show_nat_aux (Suc n) n"

subsection \<open>Image.addBands with overwrite = false\<close>

text \<open>
  The engine copies every band of the second image behind the bands of the first. A
  band whose name is already taken is not dropped and does not overwrite: it is renamed
  with a numerical suffix (\<open>foo\<close> to \<open>foo_1\<close> unless \<open>foo_1\<close> exists, then
  \<open>foo_2\<close>, and so on). The metadata is that of the first image.
\<close>

fun fresh_suffix :: "string list \<Rightarrow> string \<Rightarrow> nat \<Rightarrow> nat \<Rightarrow> string" where
  "fresh_suffix used b 0 k = b @ ''_'' @ show_nat k"
| "fresh_suffix used b (Suc fuel) k =
     (if b @ ''_'' @ show_nat k \<in> set used then fresh_suffix used b fuel (Suc k)
      else b @ ''_'' @ show_nat k)"

definition unique_name :: "string list \<Rightarrow> string \<Rightarrow> string" where
  "unique_name used b = (if b \<in> set used then fresh_suffix used b (length used) 1 else b)"

fun add_each :: "(string \<times> raster) list \<Rightarrow> (string \<times> raster) list \<Rightarrow> (string \<times> raster) list" where
  "add_each acc [] = acc"
| "add_each acc ((b, r) # rest) = add_each (acc @ [(unique_name (map fst acc) b, r)]) rest"

definition addBands :: "'a image_scheme \<Rightarrow> 'b image_scheme \<Rightarrow> 'a image_scheme" where
  "addBands dst src = dst\<lparr>bands := add_each (bands dst) (bands src)\<rparr>"

subsection \<open>Collections\<close>

text \<open>
  A collection is the list of its images in collection order. \<open>first\<close> of an empty
  collection is null; \<open>map\<close> fails when the mapped function fails on an element;
  \<open>iterate\<close> folds over every element of the collection, starting from the given
  value.
\<close>

definition first :: "'a list \<Rightarrow> 'a option" where
  "first col = (case col of [] \<Rightarrow> None | x # _ \<Rightarrow> Some x)"

fun map_col :: "('a \<Rightarrow> error + 'b) \<Rightarrow> 'a list \<Rightarrow> error + 'b list" where
  "map_col f [] = Inr []"
| "map_col f (x # xs) =
     (case f x of
        Inl e \<Rightarrow> Inl e
      | Inr y \<Rightarrow> (case map_col f xs of Inl e \<Rightarrow> Inl e | Inr ys \<Rightarrow> Inr (y # ys)))"

fun iterate :: "('a \<Rightarrow> 'b \<Rightarrow> error + 'b) \<Rightarrow> 'b \<Rightarrow> 'a list \<Rightarrow> error + 'b" where
  "iterate f prev [] = Inr prev"
| "iterate f prev (x # xs) =
     (case f x prev of Inl e \<Rightarrow> Inl e | Inr p \<Rightarrow> iterate f p xs)"

section \<open>cube.py\<close>

text \<open>
  \<^verbatim>\<open>
  def rename_with_date(img):
      d = ee.String(img.get('date'))
      old = img.bandNames()
      new = old.map(lambda b: ee.String(b).cat('_').cat(d))
      return img.rename(new)
  \<close>
  The suffix is read from the property \<open>date\<close>; concatenating a missing or
  non-string property fails, once per band that needs it.
\<close>

definition cat_date :: "'a image_scheme \<Rightarrow> string \<Rightarrow> error + string" where
  "cat_date img b =
     (case props img ''date'' of
        None \<Rightarrow> Inl (NullArgument ''String.cat'')
      | Some (PStr d) \<Rightarrow> Inr (b @ ''_'' @ d)
      | Some _ \<Rightarrow> Inl (NotAString ''date''))"

definition rename_with_date :: "'a image_scheme \<Rightarrow> error + 'a image_scheme" where
  "rename_with_date img =
     (case map_col (cat_date img) (bandNames img) of
        Inl e \<Rightarrow> Inl e
      | Inr new \<Rightarrow> Inr (img\<lparr>bands := zip new (map snd (bands img))\<rparr>))"

text \<open>
  \<^verbatim>\<open>
  def assemble_cube(ts):
      renamed = ts.map(rename_with_date)
      first = ee.Image(renamed.first())
      def _acc(img, prev):
          prev = ee.Image(prev)
          return prev.addBands(img)
      return ee.Image(ee.ImageCollection(renamed).iterate(_acc, first))
  \<close>
  The fold starts from the first renamed image and then runs over the whole renamed
  collection, the first image included.
\<close>

definition acc :: "image \<Rightarrow> image option \<Rightarrow> error + image option" where
  "acc img prev =
     (case prev of
        None \<Rightarrow> Inl (NullArgument ''Image.addBands'')
      | Some p \<Rightarrow> Inr (Some (addBands p img)))"

definition assemble_cube :: "image list \<Rightarrow> error + image option" where
  "assemble_cube ts =
     (case map_col rename_with_date ts of
        Inl e \<Rightarrow> Inl e
      | Inr renamed \<Rightarrow> iterate acc (first renamed) renamed)"

text \<open>
  The orchestrator reads the cube with \<^verbatim>\<open>cube.bandNames().size().getInfo()\<close>; the
  band names of a null image are an error of the engine.
\<close>

definition cube_bandNames :: "image list \<Rightarrow> error + string list" where
  "cube_bandNames ts =
     (case assemble_cube ts of
        Inl e \<Rightarrow> Inl e
      | Inr None \<Rightarrow> Inl (NullArgument ''Image.bandNames'')
      | Inr (Some cube) \<Rightarrow> Inr (bandNames cube))"

text \<open>The scenario of the specification: three monthly composites of the band NDVI.\<close>

definition ndvi_month :: "nat \<Rightarrow> string \<Rightarrow> image" where
  "ndvi_month k d = \<lparr>bands = [(''NDVI'', Stored k)], props = [''date'' \<mapsto> PStr d]\<rparr>"

definition ndvi_2018_q1 :: "image list" where
  "ndvi_2018_q1 =
     [ndvi_month 0 ''2018-01'', ndvi_month 1 ''2018-02'', ndvi_month 2 ''2018-03'']"

text \<open>Vocabulary for the properties of the cube.\<close>

definition dated :: "'a image_scheme \<Rightarrow> bool" where
  "dated img = (case props img ''date'' of Some (PStr d) \<Rightarrow> True | _ \<Rightarrow> False)"

definition band_count :: "'a image_scheme \<Rightarrow> nat" where
  "band_count img = length (bands img)"

section \<open>indices.py\<close>

subsection \<open>Python string helpers\<close>

text \<open>
  \<^verbatim>\<open>str.strip()\<close> removes leading and trailing whitespace, \<^verbatim>\<open>str.upper()\<close> maps
  the letters a to z to A to Z. The model covers ASCII text: its whitespace characters
  are the codes 9 to 13 and 28 to 32, and a character outside ASCII is left as it is.
\<close>

definition is_space :: "char \<Rightarrow> bool" where
  "is_space c = ((of_char c :: nat) \<in> {9, 10, 11, 12, 13, 28, 29, 30, 31, 32})"

definition strip :: "string \<Rightarrow> string" where
  "strip s = rev (dropWhile is_space (rev (dropWhile is_space s)))"

definition upper_char :: "char \<Rightarrow> char" where
  "upper_char c =
     (let n = (of_char c :: nat) in if 97 \<le> n \<and> n \<le> 122 then char_of (n - 32) else c)"

definition upper :: "string \<Rightarrow> string" where
  "upper s = map upper_char s"

subsection \<open>The index formulas\<close>

text \<open>
  \<^verbatim>\<open>
  def _safe_ratio(num, den):
      eps = ee.Image.constant(1e-6)
      den_safe = den.where(den.eq(0), eps)
      return num.divide(den_safe)
  \<close>
\<close>

definition safe_ratio :: "ialg \<Rightarrow> ialg \<Rightarrow> ialg" where
  "safe_ratio num den =
     (let eps = Constant (1 / 10 ^ 6);
          den_safe = Where den (Eq den (Constant 0)) eps
      in Divide num den_safe)"

text \<open>
  \<open>INDEX_FUNCS\<close> in the order of the source: the key, the formula, and the name that
  the final \<^verbatim>\<open>.rename(...)\<close> gives the band. Each expression string is written as its
  syntax tree.
\<close>

definition INDEX_FUNCS :: "(string \<times> ialg \<times> string) list" where
  "INDEX_FUNCS =
    [(''NDVI'', NormalizedDifference ''NIR'' ''RED'', ''NDVI''),
     (''EVI'',
        Expression
          (Times (Num 2.5)
             (Over (Minus (Var ''NIR'') (Var ''RED''))
                (Plus (Minus (Plus (Var ''NIR'') (Times (Num 6) (Var ''RED'')))
                         (Times (Num 7.5) (Var ''BLUE'')))
                   (Num 1))))
          [(''NIR'', Band ''NIR''), (''RED'', Band ''RED''), (''BLUE'', Band ''BLUE'')],
        ''EVI''),
     (''NDWI'', NormalizedDifference ''GREEN'' ''NIR'', ''NDWI''),
     (''EVI2'',
        Expression
          (Times (Num 2.5)
             (Over (Minus (Var ''NIR'') (Var ''RED''))
                (Plus (Plus (Var ''NIR'') (Times (Num 2.4) (Var ''RED''))) (Num 1))))
          [(''NIR'', Band ''NIR''), (''RED'', Band ''RED'')],
        ''EVI2''),
     (''GNDVI'', NormalizedDifference ''NIR'' ''GREEN'', ''GNDVI''),
     (''GCI'', Subtract (safe_ratio (Select ''NIR'') (Select ''GREEN'')) (Constant 1), ''GCI''),
     (''SAVI'',
        Expression
          (Times
             (Over (Minus (Var ''NIR'') (Var ''RED''))
                (Plus (Plus (Var ''NIR'') (Var ''RED'')) (Var ''L'')))
             (Plus (Num 1) (Var ''L'')))
          [(''NIR'', Band ''NIR''), (''RED'', Band ''RED''), (''L'', Const 0.5)],
        ''SAVI''),
     (''MSAVI2'',
        Expression
          (Over
             (Minus (Plus (Times (Num 2) (Var ''NIR'')) (Num 1))
                (Sqrt (Minus (Pow (Plus (Times (Num 2) (Var ''NIR'')) (Num 1)) 2)
                         (Times (Num 8) (Minus (Var ''NIR'') (Var ''RED''))))))
             (Num 2))
          [(''NIR'', Band ''NIR''), (''RED'', Band ''RED'')],
        ''MSAVI2''),
     (''WDRVI'',
        Expression
          (Over (Minus (Times (Var ''a'') (Var ''NIR'')) (Var ''RED''))
             (Plus (Times (Var ''a'') (Var ''NIR'')) (Var ''RED'')))
          [(''NIR'', Band ''NIR''), (''RED'', Band ''RED''), (''a'', Const 0.1)],
        ''WDRVI''),
     (''NDRE'', NormalizedDifference ''NIR'' ''RE4'', ''NDRE''),
     (''CIre'', Subtract (safe_ratio (Select ''NIR'') (Select ''RE4'')) (Constant 1), ''CIre''),
     (''NDMI'', NormalizedDifference ''NIR'' ''SWIR1'', ''NDMI''),
     (''NBR'', NormalizedDifference ''NIR'' ''SWIR2'', ''NBR''),
     (''MNDWI'', NormalizedDifference ''GREEN'' ''SWIR1'', ''MNDWI'')]"

definition INDICES_REQUIRE_20M :: "string list" where
  "INDICES_REQUIRE_20M = [''NDRE'', ''CIRE'', ''NDMI'', ''NBR'', ''MNDWI'']"

subsection \<open>Evaluating a formula on an image\<close>

text \<open>
  The bands that a formula selects by name. Selecting a band that the image does not
  have is an error of the engine.
\<close>

fun operand_bands :: "(string \<times> operand) list \<Rightarrow> string list" where
  "operand_bands [] = []"
| "operand_bands ((x, Band b) # rest) = b # operand_bands rest"
| "operand_bands ((x, Const c) # rest) = operand_bands rest"

fun selected :: "ialg \<Rightarrow> string list" where
  "selected (Select b) = [b]"
| "selected (Constant c) = []"
| "selected (NormalizedDifference a b) = [a, b]"
| "selected (Expression e binds) = operand_bands binds"
| "selected (Divide a b) = selected a @ selected b"
| "selected (Subtract a b) = selected a @ selected b"
| "selected (Where a t v) = selected a @ selected t @ selected v"
| "selected (Eq a b) = selected a @ selected b"

text \<open>
  \<^verbatim>\<open>INDEX_FUNCS[key](img)\<close>: a one-band image, named by the final rename. Its metadata
  plays no role below, since \<open>addBands\<close> keeps the metadata of its first argument.
\<close>

definition index_image :: "'a image_scheme \<Rightarrow> ialg \<times> string \<Rightarrow> error + image" where
  "index_image img f =
     (case filter (\<lambda>b. b \<notin> set (bandNames img)) (selected (fst f)) of
        b # _ \<Rightarrow> Inl (BandNotFound b)
      | [] \<Rightarrow> Inr \<lparr>bands = [(snd f, Computed (fst f) (bands img))], props = Map.empty\<rparr>)"

subsection \<open>apply\_indices\<close>

text \<open>
  \<^verbatim>\<open>
  def apply_indices(img, names):
      names_norm = []
      if names:
          for s in names:
              if s is None:
                  continue
              names_norm.append(str(s).strip().upper())
      canon = {k.upper(): k for k in INDEX_FUNCS.keys()}
      out = img
      for n in names_norm:
          key = canon.get(n)
          if not key:
              continue
          out = out.addBands(INDEX_FUNCS[key](img))
      has_20m = any(n in INDICES_REQUIRE_20M for n in names_norm)
      return out.set({"has_20m_indices": has_20m})
  \<close>
  The request is \<open>None\<close> or a list whose entries are \<open>None\<close> or strings. A dictionary
  built from a list keeps the last value of a repeated key, hence the \<open>rev\<close>.
\<close>

fun names_norm :: "string option list option \<Rightarrow> string list" where
  "names_norm None = []"
| "names_norm (Some []) = []"
| "names_norm (Some (None # rest)) = names_norm (Some rest)"
| "names_norm (Some (Some s # rest)) = upper (strip s) # names_norm (Some rest)"

definition canon :: "string \<rightharpoonup> string" where
  "canon = map_of (rev (map (\<lambda>(k, f). (upper k, k)) INDEX_FUNCS))"

definition index_func :: "string \<Rightarrow> error + ialg \<times> string" where
  "index_func key =
     (case map_of (rev INDEX_FUNCS) key of None \<Rightarrow> Inl (KeyError key) | Some f \<Rightarrow> Inr f)"

fun add_indices ::
  "'a image_scheme \<Rightarrow> 'a image_scheme \<Rightarrow> string list \<Rightarrow> error + 'a image_scheme" where
  "add_indices img out [] = Inr out"
| "add_indices img out (n # ns) =
     (case canon n of
        None \<Rightarrow> add_indices img out ns
      | Some key \<Rightarrow>
          (if key = [] then add_indices img out ns
           else case index_func key of
                  Inl e \<Rightarrow> Inl e
                | Inr f \<Rightarrow>
                    (case index_image img f of
                       Inl e \<Rightarrow> Inl e
                     | Inr band \<Rightarrow> add_indices img (addBands out band) ns)))"

definition has_20m :: "string list \<Rightarrow> bool" where
  "has_20m ns = list_ex (\<lambda>n. n \<in> set INDICES_REQUIRE_20M) ns"

definition apply_indices ::
  "'a image_scheme \<Rightarrow> string option list option \<Rightarrow> error + 'a image_scheme" where
  "apply_indices img names =
     (case add_indices img img (names_norm names) of
        Inl e \<Rightarrow> Inl e
      | Inr out \<Rightarrow>
          Inr (out\<lparr>props := (props out)(''has_20m_indices'' \<mapsto> PBool (has_20m (names_norm names)))\<rparr>))"

text \<open>
  Vocabulary for the properties of \<open>apply_indices\<close>: a requested name is unknown when
  its normal form is no key of the registry; \<open>drop_unknown\<close> removes the unknown names
  from a request; \<open>recognized\<close> lists the registry keys of the recognized names, in
  request order.
\<close>

definition unknown :: "string \<Rightarrow> bool" where
  "unknown s = (canon (upper (strip s)) = None)"

definition drop_unknown :: "string option list option \<Rightarrow> string option list option" where
  "drop_unknown names =
     map_option (filter (\<lambda>e. case e of None \<Rightarrow> True | Some s \<Rightarrow> \<not> unknown s)) names"

definition recognized :: "string option list option \<Rightarrow> string list" where
  "recognized names = List.map_filter canon (names_norm names)"

definition index_formula :: "string \<Rightarrow> ialg" where
  "index_formula key = (case index_func key of Inr f \<Rightarrow> fst f | Inl e \<Rightarrow> Constant 0)"

subsection \<open>The value of a formula at one pixel\<close>

text \<open>
  Band values at a pixel are real numbers here, the idealisation of the engine's
  floating-point samples. The engine's division returns 0 for a division by 0; a
  normalized difference is \<open>(a - b) / (a + b)\<close> and is masked when an input is
  negative; the square root of a negative number has no value. \<open>None\<close> is a pixel
  without a value. The division is a parameter of the evaluation, so that the formulas
  can also be read with another division.
\<close>

definition ee_divide :: "real \<Rightarrow> real \<Rightarrow> real" where
  "ee_divide a b = (if b = 0 then 0 else a / b)"

definition lift2 :: "(real \<Rightarrow> real \<Rightarrow> real) \<Rightarrow> real option \<Rightarrow> real option \<Rightarrow> real option" where
  "lift2 f a b =
     (case a of None \<Rightarrow> None | Some x \<Rightarrow> (case b of None \<Rightarrow> None | Some y \<Rightarrow> Some (f x y)))"

fun pexp_value :: "(real \<Rightarrow> real \<Rightarrow> real) \<Rightarrow> (string \<rightharpoonup> real) \<Rightarrow> pexp \<Rightarrow> real option" where
  "pexp_value dv env (Var x) = env x"
| "pexp_value dv env (Num c) = Some c"
| "pexp_value dv env (Plus a b) = lift2 (+) (pexp_value dv env a) (pexp_value dv env b)"
| "pexp_value dv env (Minus a b) = lift2 (-) (pexp_value dv env a) (pexp_value dv env b)"
| "pexp_value dv env (Times a b) = lift2 (*) (pexp_value dv env a) (pexp_value dv env b)"
| "pexp_value dv env (Over a b) = lift2 dv (pexp_value dv env a) (pexp_value dv env b)"
| "pexp_value dv env (Pow a n) = map_option (\<lambda>x. x ^ n) (pexp_value dv env a)"
| "pexp_value dv env (Sqrt a) =
     (case pexp_value dv env a of
        None \<Rightarrow> None
      | Some x \<Rightarrow> if 0 \<le> x then Some (sqrt x) else None)"

definition operand_value :: "(string \<Rightarrow> real) \<Rightarrow> (string \<times> operand) list \<Rightarrow> string \<rightharpoonup> real" where
  "operand_value px binds x =
     (case map_of (rev binds) x of
        None \<Rightarrow> None
      | Some (Band b) \<Rightarrow> Some (px b)
      | Some (Const c) \<Rightarrow> Some c)"

fun pixel_with :: "(real \<Rightarrow> real \<Rightarrow> real) \<Rightarrow> (string \<Rightarrow> real) \<Rightarrow> ialg \<Rightarrow> real option" where
  "pixel_with dv px (Select b) = Some (px b)"
| "pixel_with dv px (Constant c) = Some c"
| "pixel_with dv px (NormalizedDifference a b) =
     (if px a < 0 \<or> px b < 0 then None else Some (dv (px a - px b) (px a + px b)))"
| "pixel_with dv px (Expression e binds) = pexp_value dv (operand_value px binds) e"
| "pixel_with dv px (Divide a b) = lift2 dv (pixel_with dv px a) (pixel_with dv px b)"
| "pixel_with dv px (Subtract a b) = lift2 (-) (pixel_with dv px a) (pixel_with dv px b)"
| "pixel_with dv px (Where a t v) =
     (case pixel_with dv px a of
        None \<Rightarrow> None
      | Some x \<Rightarrow>
          (case pixel_with dv px t of
             None \<Rightarrow> None
           | Some c \<Rightarrow>
               (case pixel_with dv px v of
                  None \<Rightarrow> None
                | Some y \<Rightarrow> Some (if c \<noteq> 0 then y else x))))"
| "pixel_with dv px (Eq a b) =
     lift2 (\<lambda>x y. if x = y then 1 else 0) (pixel_with dv px a) (pixel_with dv px b)"

definition pixel :: "(string \<Rightarrow> real) \<Rightarrow> ialg \<Rightarrow> real option" where
  "pixel px f = pixel_with ee_divide px f"

text \<open>
  The reading of the specification: wherever a formula divides, a denominator that is
  exactly zero is replaced by the epsilon \<open>1e-6\<close> before dividing.
\<close>

definition spec_guarded_divide :: "real \<Rightarrow> real \<Rightarrow> real" where
  "spec_guarded_divide a b = a / (if b = 0 then 1 / 10 ^ 6 else b)"

definition spec_guarded_pixel :: "(string \<Rightarrow> real) \<Rightarrow> ialg \<Rightarrow> real option" where
  "spec_guarded_pixel px f = pixel_with spec_guarded_divide px f"

text \<open>An image that meets the band-name contract of the pipeline, and sample pixels.\<close>

definition canonical_roles :: "string list" where
  "canonical_roles =
     [''BLUE'', ''GREEN'', ''RED'', ''NIR'', ''RE1'', ''RE2'', ''RE3'', ''RE4'', ''SWIR1'', ''SWIR2'']"

definition s2_image :: image where
  "s2_image = \<lparr>bands = map (\<lambda>(k, b). (b, Stored k)) (enumerate 0 canonical_roles),
               props = Map.empty\<rparr>"

definition px_sample :: "real \<Rightarrow> real \<Rightarrow> real \<Rightarrow> real \<Rightarrow> string \<Rightarrow> real" where
  "px_sample nir red green blue b =
     (if b = ''NIR'' then nir else if b = ''RED'' then red
      else if b = ''GREEN'' then green else if b = ''BLUE'' then blue else 0)"

section \<open>Dates of the engine\<close>

text \<open>
  A date is an instant in milliseconds since 1970-01-01T00:00 UTC. The calendar is the
  proleptic Gregorian one. \<open>advance\<close> by whole months moves the month and keeps the
  day of the month (cut back to the last day of a shorter month) and the time of day;
  \<open>difference\<close> in months divides the elapsed milliseconds by the average length of
  a month, a twelfth of 365.2425 days, and \<open>int\<close> drops the fraction.
\<close>

definition ms_per_day :: int where
  "ms_per_day = 86400000"



definition civil_from_days :: "int \<Rightarrow> int \<times> int \<times> int" where
  "civil_from_days z =
     (let z' = z + 719468;
          era = z' div 146097;
          doe = z' - era * 146097;
          yoe = (doe - doe div 1460 + doe div 36524 - doe div 146096) div 365;
          doy = doe - (365 * yoe + yoe div 4 - yoe div 100);
          mp = (5 * doy + 2) div 153;
          d = doy - (153 * mp + 2) div 5 + 1;
          m = (if mp < 10 then mp + 3 else mp - 9);
          y = yoe + era * 400
      in (if m \<le> 2 then y + 1 else y, m, d))"







definition pad :: "nat \<Rightarrow> string \<Rightarrow> string" where
  "pad w s = replicate (w - length s) (CHR ''0'') @ s"


definition format_YYYY_MM_dd :: "int \<Rightarrow> string" where
  "format_YYYY_MM_dd t =
     (case civil_from_days (t div ms_per_day) of
        (y, m, d) \<Rightarrow>
          pad 4 (show_nat (nat y)) @ ''-'' @ pad 2 (show_nat (nat m)) @ ''-''
            @ pad 2 (show_nat (nat d)))"


section \<open>timeseries.py\<close>

text \<open>
  An image of the time series carries its acquisition instant, the property
  \<open>system:time_start\<close> that \<^verbatim>\<open>img.date()\<close> and the sort read.
\<close>

record scene = image +
  time_start :: int

text \<open>
  \<^verbatim>\<open>
  def compose_time_series(col, indices):
      def _per_image(img):
          img2 = apply_indices(img, indices)
          return img2.set({'date': img.date().format('YYYY-MM-dd')})
      return col.map(_per_image)
  \<close>
\<close>

definition per_image :: "string option list option \<Rightarrow> scene \<Rightarrow> error + scene" where
  "per_image indices img =
     (case apply_indices img indices of
        Inl e \<Rightarrow> Inl e
      | Inr img2 \<Rightarrow>
          Inr (img2\<lparr>props := (props img2)(''date'' \<mapsto> PStr (format_YYYY_MM_dd (time_start img)))\<rparr>))"

definition compose_time_series :: "scene list \<Rightarrow> string option list option \<Rightarrow> error + scene list" where
  "compose_time_series col indices = map_col (per_image indices) col"












section \<open>sof.py\<close>

definition FAMILIES :: "(string \<times> string) list" where
  "FAMILIES =
     [(''Fractions_Density'', ''SOF_Fractions_Density''),
      (''Proportions'', ''SOF_Proportions''),
      (''Stocks'', ''SOF_Stocks'')]"

definition FRACTIONS :: "string list" where
  "FRACTIONS = [''MAOC'', ''POC'', ''PyOC'']"

definition DEPTHS :: "string list" where
  "DEPTHS = [''000_005'', ''005_015'', ''015_030'']"

definition STATS :: "string list" where
  "STATS = [''EV'', ''05'', ''95'']"

text \<open>
  \<^verbatim>\<open>
  def _sof_is_available(family, depth, stat, fraction):
      if family == "Fractions_Density":
          return (depth in ("000_005","005_015","015_030")) and (stat in ("EV","05","95"))
      if family == "Proportions":
          if depth == "000_005":
              return stat in ("EV","05","95")
          if depth in ("005_015","015_030"):
              return stat in ("05","95")
          return False
      if family == "Stocks":
          return (depth == "000_030") and (stat == "EV")
      return False
  \<close>
\<close>

definition sof_is_available :: "string \<Rightarrow> string \<Rightarrow> string \<Rightarrow> string \<Rightarrow> bool" where
  "sof_is_available family depth stat fraction =
     (if family = ''Fractions_Density'' then
        depth \<in> set [''000_005'', ''005_015'', ''015_030''] \<and> stat \<in> set [''EV'', ''05'', ''95'']
      else if family = ''Proportions'' then
        (if depth = ''000_005'' then stat \<in> set [''EV'', ''05'', ''95'']
         else if depth \<in> set [''005_015'', ''015_030''] then stat \<in> set [''05'', ''95'']
         else False)
      else if family = ''Stocks'' then depth = ''000_030'' \<and> stat = ''EV''
      else False)"

text \<open>The fields of \<open>SOFPointsConfig\<close> that select the requests.\<close>

record SOFPointsConfig =
  families :: "string list"
  fractions :: "string list"
  depths :: "string list"
  stat :: string

text \<open>
  The checks at the head of \<open>sof_points_quick\<close>:
  \<^verbatim>\<open>
  for fam in cfg.families:
      if fam not in FAMILIES:
          raise ValueError(f"Unknown family '{fam}'. ...")
  for frac in cfg.fractions:
      if frac not in FRACTIONS:
          raise ValueError(f"Unknown fraction '{frac}'. ...")
  for d in cfg.depths:
      if d not in DEPTHS and "Stocks" not in cfg.families:
          raise ValueError(f"Invalid depth '{d}'. ...")
  \<close>
\<close>

definition sof_validate :: "SOFPointsConfig \<Rightarrow> error option" where
  "sof_validate cfg =
     (case find (\<lambda>fam. fam \<notin> set (map fst FAMILIES)) (families cfg) of
        Some fam \<Rightarrow> Some (ValueError (''Unknown family '' @ fam))
      | None \<Rightarrow>
          (case find (\<lambda>fr. fr \<notin> set FRACTIONS) (fractions cfg) of
             Some fr \<Rightarrow> Some (ValueError (''Unknown fraction '' @ fr))
           | None \<Rightarrow>
               (case find (\<lambda>d. d \<notin> set DEPTHS \<and> ''Stocks'' \<notin> set (families cfg)) (depths cfg) of
                  Some d \<Rightarrow> Some (ValueError (''Invalid depth '' @ d))
                | None \<Rightarrow> None)))"

text \<open>
  The loop that selects the requests; the state is the list of requests and the log of
  warnings.
  \<^verbatim>\<open>
  requests = []
  for fam in cfg.families:
      if fam == "Stocks":
          for frac in cfg.fractions:
              if _sof_is_available(fam, "000_030", "EV", frac):
                  requests.append((fam, "000_030", "EV", frac))
              else:
                  logger.warning(f"[skip] {fam} EV 000_030 {frac}: not published")
      else:
          for d in cfg.depths:
              for frac in cfg.fractions:
                  if _sof_is_available(fam, d, cfg.stat, frac):
                      requests.append((fam, d, cfg.stat, frac))
                  else:
                      logger.warning(f"[skip] {fam} {cfg.stat} {d} {frac}: not published")
  \<close>
\<close>

type_synonym sof_request = "string \<times> string \<times> string \<times> string"

definition skip_warning :: "string \<Rightarrow> string \<Rightarrow> string \<Rightarrow> string \<Rightarrow> string" where
  "skip_warning fam st d fr =
     ''[skip] '' @ fam @ '' '' @ st @ '' '' @ d @ '' '' @ fr @ '': not published''"

definition request_or_warn ::
  "string \<Rightarrow> string \<Rightarrow> string \<Rightarrow> string \<Rightarrow> sof_request list \<times> string list
     \<Rightarrow> sof_request list \<times> string list" where
  "request_or_warn fam d st fr s =
     (if sof_is_available fam d st fr then (fst s @ [(fam, d, st, fr)], snd s)
      else (fst s, snd s @ [skip_warning fam st d fr]))"

definition family_requests ::
  "SOFPointsConfig \<Rightarrow> string \<Rightarrow> sof_request list \<times> string list
     \<Rightarrow> sof_request list \<times> string list" where
  "family_requests cfg fam s =
     (if fam = ''Stocks'' then
        fold (\<lambda>fr. request_or_warn fam ''000_030'' ''EV'' fr) (fractions cfg) s
      else
        fold (\<lambda>d. fold (\<lambda>fr. request_or_warn fam d (stat cfg) fr) (fractions cfg))
          (depths cfg) s)"

definition build_requests :: "SOFPointsConfig \<Rightarrow> sof_request list \<times> string list" where
  "build_requests cfg = fold (family_requests cfg) (families cfg) ([], [])"

definition sof_requests :: "SOFPointsConfig \<Rightarrow> error + sof_request list \<times> string list" where
  "sof_requests cfg =
     (case sof_validate cfg of Some e \<Rightarrow> Inl e | None \<Rightarrow> Inr (build_requests cfg))"

text \<open>
  Vocabulary for the properties: the combinations that a configuration asks for, and
  the requests and warnings of one family in closed form.
\<close>

definition configured :: "SOFPointsConfig \<Rightarrow> sof_request \<Rightarrow> bool" where
  "configured cfg r =
     (case r of
        (fam, d, st, fr) \<Rightarrow>
          fam \<in> set (families cfg) \<and> d \<in> set (depths cfg) \<and> st = stat cfg
            \<and> fr \<in> set (fractions cfg))"

definition family_issued :: "SOFPointsConfig \<Rightarrow> string \<Rightarrow> sof_request list" where
  "family_issued cfg fam =
     (if fam = ''Stocks'' then map (\<lambda>fr. (fam, ''000_030'', ''EV'', fr)) (fractions cfg)
      else concat (map (\<lambda>d. concat (map (\<lambda>fr.
             if sof_is_available fam d (stat cfg) fr then [(fam, d, stat cfg, fr)] else [])
             (fractions cfg))) (depths cfg)))"

definition family_warned :: "SOFPointsConfig \<Rightarrow> string \<Rightarrow> string list" where
  "family_warned cfg fam =
     (if fam = ''Stocks'' then []
      else concat (map (\<lambda>d. concat (map (\<lambda>fr.
             if sof_is_available fam d (stat cfg) fr then []
             else [skip_warning fam (stat cfg) d fr])
             (fractions cfg))) (depths cfg)))"

definition stocks_shallow :: SOFPointsConfig where
  "stocks_shallow =
     \<lparr>families = [''Stocks''], fractions = [''MAOC''], depths = [''000_005''], stat = ''EV''\<rparr>"

definition proportions_cfg :: "string \<Rightarrow> SOFPointsConfig" where
  "proportions_cfg st =
     \<lparr>families = [''Proportions''], fractions = [''MAOC'', ''POC''],
      depths = [''000_005'', ''015_030''], stat = st\<rparr>"

section \<open>silo.py\<close>

subsection \<open>Floating-point numbers\<close>


definition py_round :: "real \<Rightarrow> int" where
  "py_round x =
     (let f = \<lfloor>x\<rfloor>; d = x - of_int f
      in if d < 1 / 2 then f else if 1 / 2 < d then f + 1 else if even f then f else f + 1)"

text \<open>
  \<^verbatim>\<open>
  def _snap05(x: float) -> float:
      return round(x / 0.05) * 0.05
  \<close>
  The literal \<open>0.05\<close> is the double nearest to 5/100; the quotient and the product are
  rounded; the integer is converted to a float before the product.
\<close>

definition snap05 :: "(real \<Rightarrow> real) \<Rightarrow> real \<Rightarrow> real" where
  "snap05 rnd x =
     (let c = rnd (5 / 100); k = py_round (rnd (x / c)) in rnd (rnd (of_int k) * c))"

text \<open>
  What the rounding of doubles guarantees, as far as snapping needs it: a result between
  \<open>2^-10\<close> and \<open>2^60\<close> in magnitude is rounded with a relative error of at most
  \<open>2^-53\<close>; a smaller one stays below \<open>2^-10\<close>; an integer up to \<open>2^53\<close> is a
  double. Round-to-nearest of IEEE 754 binary64 has these properties, and so has exact
  arithmetic.
\<close>

definition double_rounding :: "(real \<Rightarrow> real) \<Rightarrow> bool" where
  "double_rounding rnd =
     ((\<forall>x. 1 / 2 ^ 10 \<le> \<bar>x\<bar> \<and> \<bar>x\<bar> \<le> 2 ^ 60 \<longrightarrow> \<bar>rnd x - x\<bar> \<le> \<bar>x\<bar> / 2 ^ 53)
      \<and> (\<forall>x. \<bar>x\<bar> \<le> 1 / 2 ^ 10 \<longrightarrow> \<bar>rnd x\<bar> \<le> 1 / 2 ^ 10)
      \<and> (\<forall>k :: int. \<bar>k\<bar> \<le> 2 ^ 53 \<longrightarrow> rnd (of_int k) = of_int k))"

text \<open>
  Round-to-nearest, ties to even, of IEEE 754 binary64, for a real number that does not
  overflow: around \<open>x\<close> the doubles are the multiples of \<open>2\<close> to the power
  \<open>floor (log2 |x|) - 52\<close>, and of \<open>2^-1074\<close> for the smallest ones.
\<close>

definition fl64 :: "real \<Rightarrow> real" where
  "fl64 x =
     (if x = 0 then 0
      else let e = max (\<lfloor>log 2 \<bar>x\<bar>\<rfloor> - 52) (- 1074)
           in of_int (py_round (x / 2 powr of_int e)) * 2 powr of_int e)"

text \<open>The multiple of 0.05 that snapping selects.\<close>

definition snap_index :: "(real \<Rightarrow> real) \<Rightarrow> real \<Rightarrow> int" where
  "snap_index rnd x = py_round (rnd (x / rnd (5 / 100)))"

subsection \<open>Requests\<close>

definition show_int :: "int \<Rightarrow> string" where
  "show_int i = (if i < 0 then ''-'' @ show_nat (nat (- i)) else show_nat (nat i))"






record SILOPointsConfig =
  mode :: string
  variables :: "string list"
  date_start :: string
  date_end :: string
  username :: string
  password :: string
  fmt :: string
  retry_max :: int








subsection \<open>silo\_points\_quick\<close>

















section \<open>report.py, config.py, export.py and runner.py\<close>

text \<open>
  The run report: the steps with their metadata, the errors with the stage they come
  from, and the artifacts with their kind. The time stamp of a step is not modelled.
\<close>

record RunReport =
  steps :: "(string \<times> (string \<times> string option) list) list"
  errors :: "(string \<times> error) list"
  artifacts :: "(string \<times> string) list"

definition new_report :: RunReport where
  "new_report = \<lparr>steps = [], errors = [], artifacts = []\<rparr>"

definition add_step :: "string \<Rightarrow> (string \<times> string option) list \<Rightarrow> RunReport \<Rightarrow> RunReport" where
  "add_step name meta report = report\<lparr>steps := steps report @ [(name, meta)]\<rparr>"

definition add_error :: "string \<Rightarrow> error \<Rightarrow> RunReport \<Rightarrow> RunReport" where
  "add_error place err report = report\<lparr>errors := errors report @ [(place, err)]\<rparr>"

definition add_artifact :: "string \<Rightarrow> string \<Rightarrow> RunReport \<Rightarrow> RunReport" where
  "add_artifact path kind report = report\<lparr>artifacts := artifacts report @ [(path, kind)]\<rparr>"

text \<open>The fields of \<open>Config\<close> that the orchestrator reads.\<close>

record Config =
  area_name :: string
  yield_year :: int
  roi_path :: "string option"
  roi_ee_asset :: "string option"
  date_start :: string
  date_end :: string
  export_root :: string
  preview :: bool

text \<open>
  What lies outside the orchestrator: the outcome of creating a directory, of setting
  up the logger, and of each stage; \<open>None\<close> is success. For an export, the directory
  step runs before the \<^verbatim>\<open>try\<close> of the export function and the job inside it.
\<close>

record stages =
  w_makedirs :: "error option"
  w_setup_logger :: "error option"
  w_initialize :: "error option"
  w_load_roi :: "error option"
  w_time_series :: "error option"
  w_monthly :: "error option"
  w_cube :: "error + nat"
  w_table_dir :: "error option"
  w_table_job :: "error option"
  w_samples_dir :: "error option"
  w_samples_job :: "error option"
  w_show_on_map :: "error option"

text \<open>Python compares strings by code point, position by position.\<close>

fun str_le :: "string \<Rightarrow> string \<Rightarrow> bool" where
  "str_le [] ys = True"
| "str_le (x # xs) [] = False"
| "str_le (x # xs) (y # ys) =
     (if (of_char x :: nat) < of_char y then True
      else if x = y then str_le xs ys else False)"

text \<open>
  \<^verbatim>\<open>
  def validate(self) -> None:
      assert self.area_name, "area_name must be provided"
      assert isinstance(self.yield_year, int), "yield_year must be int"
      assert self.date_start <= self.date_end, "date_start must be <= date_end"
      if self.roi_path is None and self.roi_ee_asset is None:
          raise ValueError("Provide either roi_path or roi_ee_asset")
      os.makedirs(self.export_dir, exist_ok=True)
  \<close>
\<close>

definition validate :: "stages \<Rightarrow> Config \<Rightarrow> error option" where
  "validate w cfg =
     (if area_name cfg = [] then Some (AssertionError ''area_name must be provided'')
      else if \<not> str_le (date_start cfg) (date_end cfg) then
        Some (AssertionError ''date_start must be <= date_end'')
      else if roi_path cfg = None \<and> roi_ee_asset cfg = None then
        Some (ValueError ''Provide either roi_path or roi_ee_asset'')
      else w_makedirs w)"

definition export_dir :: "Config \<Rightarrow> string" where
  "export_dir cfg =
     export_root cfg @ ''/'' @ area_name cfg @ ''/'' @ show_int (yield_year cfg)"

definition make_name :: "string \<Rightarrow> int \<Rightarrow> string \<Rightarrow> string" where
  "make_name area year stem = area @ ''_'' @ show_int year @ ''_'' @ stem"

text \<open>
  \<open>export_cube_table\<close> and \<open>export_pixel_samples\<close>: the directory is made before
  the \<^verbatim>\<open>try\<close>; a failure of the job inside the \<^verbatim>\<open>try\<close> is logged there and the
  function returns \<open>None\<close>, otherwise the path of the parquet file.
\<close>

definition export_cube_table :: "stages \<Rightarrow> Config \<Rightarrow> error + string option" where
  "export_cube_table w cfg =
     (case w_table_dir w of
        Some e \<Rightarrow> Inl e
      | None \<Rightarrow>
          (case w_table_job w of
             Some e \<Rightarrow> Inr None
           | None \<Rightarrow>
               Inr (Some (export_dir cfg @ ''/''
                      @ make_name (area_name cfg) (yield_year cfg) ''cube_stats'' @ ''.parquet''))))"

definition export_pixel_samples :: "stages \<Rightarrow> Config \<Rightarrow> error + string option" where
  "export_pixel_samples w cfg =
     (case w_samples_dir w of
        Some e \<Rightarrow> Inl e
      | None \<Rightarrow>
          (case w_samples_job w of
             Some e \<Rightarrow> Inr None
           | None \<Rightarrow>
               Inr (Some (export_dir cfg @ ''/''
                      @ make_name (area_name cfg) (yield_year cfg) ''samples'' @ ''.parquet''))))"

text \<open>
  The late stages of \<open>run_pipeline_quick\<close>, each in its own \<^verbatim>\<open>try\<close>; none of
  them returns.
  \<^verbatim>\<open>
  try:
      p = export_cube_table(cfg, cube, roi_geom, logger)
      if p: report.add_artifact(p, "table")
  except Exception as e:
      report.add_error("export_cube_table", e)
  try:
      p2 = export_pixel_samples(cfg, cube, roi_geom, logger)
      if p2: report.add_artifact(p2, "samples")
  except Exception as e:
      report.add_error("export_pixel_samples", e)
  if cfg.preview:
      try:
          _ = show_on_map(cube, roi_fc)
          report.add_step("Preview map ready")
      except Exception as e:
          report.add_error("preview", e)
  return report
  \<close>
\<close>

definition record_export :: "string \<Rightarrow> string \<Rightarrow> error + string option \<Rightarrow> RunReport \<Rightarrow> RunReport" where
  "record_export place kind outcome report =
     (case outcome of
        Inl e \<Rightarrow> add_error place e report
      | Inr None \<Rightarrow> report
      | Inr (Some p) \<Rightarrow> if p = [] then report else add_artifact p kind report)"

definition preview_stage :: "stages \<Rightarrow> Config \<Rightarrow> RunReport \<Rightarrow> RunReport" where
  "preview_stage w cfg report =
     (if preview cfg then
        (case w_show_on_map w of
           None \<Rightarrow> add_step ''Preview map ready'' [] report
         | Some e \<Rightarrow> add_error ''preview'' e report)
      else report)"

definition late_stages :: "stages \<Rightarrow> Config \<Rightarrow> RunReport \<Rightarrow> RunReport" where
  "late_stages w cfg report =
     preview_stage w cfg
       (record_export ''export_pixel_samples'' ''samples'' (export_pixel_samples w cfg)
          (record_export ''export_cube_table'' ''table'' (export_cube_table w cfg) report))"

text \<open>
  \<^verbatim>\<open>
  def run_pipeline_quick(cfg):
      cfg.validate()
      logger = setup_logger(log_dir, verbose_console=True)
      report = RunReport()
      try:
          ee.Initialize()
      except Exception as e:
          report.add_error("ee.Initialize", e)
          return report
      try:
          roi_fc, roi_geom = load_roi(cfg.roi_path, cfg.roi_ee_asset)
          report.add_step("ROI loaded", {"source": cfg.roi_path or cfg.roi_ee_asset})
      except Exception as e:
          report.add_error("load_roi", e)
          return report
      try:
          col = build_s2_collection(...)
          ts = compose_time_series(col, cfg.indices)
          report.add_step("Time series composed")
      except Exception as e:
          report.add_error("compose_time_series", e)
          return report
      try:
          monthly = safe_monthly_mosaics(ts)
          report.add_step("Monthly mosaics created")
      except Exception as e:
          report.add_error("safe_monthly_mosaics", e)
          return report
      try:
          cube = assemble_cube(monthly)
          report.add_step("Cube assembled", {"bands": cube.bandNames().size().getInfo()})
      except Exception as e:
          report.add_error("assemble_cube", e)
          return report
      ...
  \<close>
  \<open>Inl\<close> is an exception that leaves \<open>run_pipeline_quick\<close>; \<open>Inr\<close> is the report
  that it returns.
\<close>

definition roi_source :: "Config \<Rightarrow> string option" where
  "roi_source cfg =
     (case roi_path cfg of
        None \<Rightarrow> roi_ee_asset cfg
      | Some p \<Rightarrow> if p = [] then roi_ee_asset cfg else Some p)"

definition run_pipeline_quick :: "stages \<Rightarrow> Config \<Rightarrow> error + RunReport" where
  "run_pipeline_quick w cfg =
     (case validate w cfg of
        Some e \<Rightarrow> Inl e
      | None \<Rightarrow>
     (case w_setup_logger w of
        Some e \<Rightarrow> Inl e
      | None \<Rightarrow>
     (let report = new_report in
      case w_initialize w of
        Some e \<Rightarrow> Inr (add_error ''ee.Initialize'' e report)
      | None \<Rightarrow>
     (case w_load_roi w of
        Some e \<Rightarrow> Inr (add_error ''load_roi'' e report)
      | None \<Rightarrow>
     (let report = add_step ''ROI loaded'' [(''source'', roi_source cfg)] report in
      case w_time_series w of
        Some e \<Rightarrow> Inr (add_error ''compose_time_series'' e report)
      | None \<Rightarrow>
     (let report = add_step ''Time series composed'' [] report in
      case w_monthly w of
        Some e \<Rightarrow> Inr (add_error ''safe_monthly_mosaics'' e report)
      | None \<Rightarrow>
     (let report = add_step ''Monthly mosaics created'' [] report in
      case w_cube w of
        Inl e \<Rightarrow> Inr (add_error ''assemble_cube'' e report)
      | Inr n \<Rightarrow>
          Inr (late_stages w cfg
                 (add_step ''Cube assembled'' [(''bands'', Some (show_nat n))] report)))))))))"

text \<open>
  Vocabulary for the properties: the errors that the late stages add to the report, and
  the steps of a run whose early stages all succeed.
\<close>

definition late_errors :: "stages \<Rightarrow> Config \<Rightarrow> (string \<times> error) list" where
  "late_errors w cfg =
     (case w_table_dir w of Some e \<Rightarrow> [(''export_cube_table'', e)] | None \<Rightarrow> [])
     @ (case w_samples_dir w of Some e \<Rightarrow> [(''export_pixel_samples'', e)] | None \<Rightarrow> [])
     @ (if preview cfg then
          (case w_show_on_map w of Some e \<Rightarrow> [(''preview'', e)] | None \<Rightarrow> [])
        else [])"

definition early_steps :: "Config \<Rightarrow> nat \<Rightarrow> (string \<times> (string \<times> string option) list) list" where
  "early_steps cfg n =
     [(''ROI loaded'', [(''source'', roi_source cfg)]),
      (''Time series composed'', []),
      (''Monthly mosaics created'', []),
      (''Cube assembled'', [(''bands'', Some (show_nat n))])]"

definition all_fine :: stages where
  "all_fine =
     \<lparr>w_makedirs = None, w_setup_logger = None, w_initialize = None, w_load_roi = None,
      w_time_series = None, w_monthly = None, w_cube = Inr 12, w_table_dir = None,
      w_table_job = None, w_samples_dir = None, w_samples_job = None, w_show_on_map = None\<rparr>"

definition demo_config :: Config where
  "demo_config =
     \<lparr>area_name = ''farm'', yield_year = 2018, roi_path = Some ''roi.shp'', roi_ee_asset = None,
      date_start = ''2018-01-01'', date_end = ''2018-12-31'', export_root = ''Outputs'',
      preview = True\<rparr>"

section \<open>Properties of cube assembly\<close>

lemma length_add_each: "length (add_each acc0 src) = length acc0 + length src"
  by (induction acc0 src rule: add_each.induct) auto

lemma map_col_cat_date:
  "dated img \<Longrightarrow> \<exists>new. map_col (cat_date img) bs = Inr new \<and> length new = length bs"
  by (induction bs) (auto simp: dated_def cat_date_def split: option.splits propval.splits)

lemma rename_with_date_ok:
  assumes "dated img"
  shows "\<exists>r. rename_with_date img = Inr r \<and> band_count r = band_count img"
proof -
  from map_col_cat_date [OF assms, of "bandNames img"] obtain new where
    "map_col (cat_date img) (bandNames img) = Inr new" "length new = length (bandNames img)"
    by blast
  then show ?thesis by (simp add: rename_with_date_def band_count_def bandNames_def)
qed

lemma map_col_rename:
  "list_all dated ts \<Longrightarrow>
     \<exists>rs. map_col rename_with_date ts = Inr rs \<and> map band_count rs = map band_count ts"
proof (induction ts)
  case Nil
  then show ?case by simp
next
  case (Cons t ts)
  then obtain rs where rs: "map_col rename_with_date ts = Inr rs" "map band_count rs = map band_count ts"
    by auto
  from Cons.prems rename_with_date_ok [of t] obtain r where
    r: "rename_with_date t = Inr r" "band_count r = band_count t"
    by auto
  from rs r show ?case by simp
qed

lemma iterate_acc:
  "\<exists>cube. iterate acc (Some p) rs = Inr (Some cube)
     \<and> band_count cube = band_count p + sum_list (map band_count rs)"
proof (induction rs arbitrary: p)
  case Nil
  then show ?case by simp
next
  case (Cons r rs)
  have "band_count (addBands p r) = band_count p + band_count r"
    by (simp add: addBands_def band_count_def length_add_each)
  with Cons [of "addBands p r"] show ?case by (auto simp: acc_def)
qed

lemma assemble_cube_band_count:
  assumes "ts \<noteq> []" and "list_all dated ts"
  shows "\<exists>cube. assemble_cube ts = Inr (Some cube)
     \<and> band_count cube = sum_list (map band_count ts) + band_count (hd ts)"
proof -
  from map_col_rename [OF assms(2)] obtain rs where
    rs: "map_col rename_with_date ts = Inr rs" "map band_count rs = map band_count ts"
    by blast
  with assms(1) obtain r rs' where c: "rs = r # rs'"
    by (cases rs) auto
  with rs(2) assms(1) have hd: "band_count r = band_count (hd ts)"
    by (cases ts) auto
  from iterate_acc [of r rs] obtain cube where
    "iterate acc (Some r) rs = Inr (Some cube)"
    "band_count cube = band_count r + sum_list (map band_count rs)"
    by blast
  with rs c hd show ?thesis by (simp add: assemble_cube_def first_def)
qed

text \<open>
  Claim C1. Three monthly composites of the single band NDVI, labelled 2018-01, 2018-02
  and 2018-03, should give a cube of exactly the three bands NDVI_2018-01, NDVI_2018-02,
  NDVI_2018-03. The fold of \<open>assemble_cube\<close> starts from the first renamed composite
  and then adds the bands of every composite, the first one again: the cube has four
  bands, the first month twice (the second copy under the engine's suffix \<open>_1\<close>). In
  general (\<open>assemble_cube_band_count\<close>) the band count is the sum of the per-month
  counts plus the count of the first month.
\<close>

theorem assemble_cube_q1_bands:
  "cube_bandNames ndvi_2018_q1 =
     Inr [''NDVI_2018-01'', ''NDVI_2018-01_1'', ''NDVI_2018-02'', ''NDVI_2018-03'']"
  by code_simp

text \<open>
  Claim C3, as stated: cube assembly on an empty monthly sequence fails with an error.
  It does not: the function has no check for emptiness, and its value is the engine's
  null, the first element of the empty collection.
\<close>

theorem assemble_cube_empty_no_error: "\<not> isl (assemble_cube [])"
  by (simp add: assemble_cube_def first_def)

text \<open>
  Claim C3, amended: on an empty monthly sequence \<open>assemble_cube\<close> raises nothing and
  returns null, which is not an image without bands; the failure comes deterministically
  with the first read of the result, the band names that the orchestrator asks for,
  as a null-argument error of the engine.
\<close>

theorem assemble_cube_empty:
  "assemble_cube [] = Inr None \<and> cube_bandNames [] = Inl (NullArgument ''Image.bandNames'')"
  by (simp add: assemble_cube_def cube_bandNames_def first_def)

section \<open>Properties of the index library\<close>

lemma index_funcs_ok:
  "\<forall>(k, f, nm) \<in> set INDEX_FUNCS. k \<noteq> [] \<and> nm = k \<and> index_func k = Inr (f, nm) \<and> set (selected f) \<subseteq> set canonical_roles"
  by (simp add: INDEX_FUNCS_def index_func_def canonical_roles_def safe_ratio_def)

lemma canon_keys: "canon n = Some key \<Longrightarrow> key \<in> fst ` set INDEX_FUNCS"
  unfolding canon_def by (force dest!: map_of_SomeD)

lemma canon_20m:
  "canon ''NDRE'' = Some ''NDRE''" "canon ''CIRE'' = Some ''CIre''" "canon ''NDMI'' = Some ''NDMI''"
  "canon ''NBR'' = Some ''NBR''" "canon ''MNDWI'' = Some ''MNDWI''"
  by code_simp+

lemma req20_known: "n \<in> set INDICES_REQUIRE_20M \<Longrightarrow> canon n \<noteq> None"
  unfolding INDICES_REQUIRE_20M_def using canon_20m by auto

lemma add_each_append: "\<exists>new. add_each acc0 src = acc0 @ new \<and> map snd new = map snd src"
proof (induction acc0 src rule: add_each.induct)
  case (1 acc0)
  then show ?case by simp
next
  case (2 acc0 b r rest)
  then obtain new where
    "add_each (acc0 @ [(unique_name (map fst acc0) b, r)]) rest =
       (acc0 @ [(unique_name (map fst acc0) b, r)]) @ new"
    "map snd new = map snd rest"
    by blast
  then show ?case by simp
qed

lemma canon_Some:
  assumes "canon n = Some key"
  shows "key \<noteq> [] \<and> index_func key = Inr (index_formula key, key)
         \<and> set (selected (index_formula key)) \<subseteq> set canonical_roles"
proof -
  from canon_keys [OF assms] obtain f nm where "(key, f, nm) \<in> set INDEX_FUNCS"
    by force
  with index_funcs_ok have "key \<noteq> [] \<and> nm = key \<and> index_func key = Inr (f, nm)
      \<and> set (selected f) \<subseteq> set canonical_roles"
    by fastforce
  then show ?thesis by (simp add: index_formula_def)
qed

lemma index_image_ok:
  assumes "set (selected (fst f)) \<subseteq> set (bandNames img)"
  shows "index_image img f = Inr \<lparr>bands = [(snd f, Computed (fst f) (bands img))], props = Map.empty\<rparr>"
proof -
  have "filter (\<lambda>b. b \<notin> set (bandNames img)) (selected (fst f)) = []"
    using assms by (auto simp: filter_empty_conv)
  then show ?thesis by (simp add: index_image_def)
qed

lemma add_indices_frame:
  assumes roles: "set canonical_roles \<subseteq> set (bandNames img)"
  shows "\<exists>new. add_indices img out ns = Inr (out\<lparr>bands := bands out @ new\<rparr>)
           \<and> map snd new = map (\<lambda>k. Computed (index_formula k) (bands img)) (List.map_filter canon ns)"
proof (induction ns arbitrary: out)
  case Nil
  show ?case by simp
next
  case (Cons n ns)
  show ?case
  proof (cases "canon n")
    case None
    with Cons [of out] show ?thesis by simp
  next
    case (Some key)
    note k = canon_Some [OF Some]
    let ?band = "\<lparr>bands = [(key, Computed (index_formula key) (bands img))], props = Map.empty\<rparr>"
    have img: "index_image img (index_formula key, key) = Inr ?band"
      using index_image_ok [of "(index_formula key, key)" img] k roles by auto
    obtain u where u: "bands (addBands out ?band) = bands out @ [(u, Computed (index_formula key) (bands img))]"
      by (simp add: addBands_def)
    from Cons [of "addBands out ?band"] obtain new where
      new: "add_indices img (addBands out ?band) ns =
              Inr ((addBands out ?band)\<lparr>bands := bands (addBands out ?band) @ new\<rparr>)"
        "map snd new = map (\<lambda>k. Computed (index_formula k) (bands img)) (List.map_filter canon ns)"
      by blast
    have "add_indices img out (n # ns) =
            Inr (out\<lparr>bands := bands out @ ((u, Computed (index_formula key) (bands img)) # new)\<rparr>)"
      using Some k img new(1) u by (simp add: addBands_def)
    moreover have "map snd ((u, Computed (index_formula key) (bands img)) # new) =
        map (\<lambda>k. Computed (index_formula k) (bands img)) (List.map_filter canon (n # ns))"
      using Some new(2) by simp
    ultimately show ?thesis by blast
  qed
qed

lemma add_indices_unrecognized:
  "List.map_filter canon ns = [] \<Longrightarrow> add_indices img out ns = Inr out"
  by (induction ns) (auto split: option.splits)

lemma has_20m_iff:
  "has_20m ns \<longleftrightarrow> (\<exists>n \<in> set ns. n \<in> {''NDRE'', ''CIRE'', ''NDMI'', ''NBR'', ''MNDWI''})"
  by (auto simp: has_20m_def list_ex_iff INDICES_REQUIRE_20M_def)

lemma names_norm_filter:
  "names_norm (drop_unknown (Some ns)) = filter (\<lambda>n. canon n \<noteq> None) (names_norm (Some ns))"
proof (induction ns)
  case Nil
  show ?case by (simp add: drop_unknown_def)
next
  case (Cons e ns)
  then show ?case by (cases e) (auto simp: drop_unknown_def unknown_def)
qed

lemma names_norm_drop_unknown:
  "names_norm (drop_unknown names) = filter (\<lambda>n. canon n \<noteq> None) (names_norm names)"
proof (cases names)
  case None
  then show ?thesis by (simp add: drop_unknown_def)
next
  case (Some ns)
  then show ?thesis by (simp add: names_norm_filter)
qed

lemma add_indices_filter:
  "add_indices img out (filter (\<lambda>n. canon n \<noteq> None) ns) = add_indices img out ns"
  by (induction ns arbitrary: out) (auto split: option.splits sum.splits)

lemma has_20m_filter: "has_20m (filter (\<lambda>n. canon n \<noteq> None) ns) = has_20m ns"
  using req20_known by (auto simp: has_20m_def list_ex_iff)

text \<open>
  Claim C5. Unknown index names are skipped without error and without any effect on the
  result: removing them from the request gives the same value of \<open>apply_indices\<close>,
  for every image and every request. The request NDVI, BOGUS, NDWI on an image that has
  the bands NIR, RED and GREEN (and no band named NDVI or NDWI yet) adds exactly two
  bands, NDVI and NDWI, each computed from the input image.
\<close>

theorem unknown_names_skipped:
  "apply_indices img (drop_unknown names) = apply_indices img names
   \<and> (set [''NIR'', ''RED'', ''GREEN''] \<subseteq> set (bandNames img)
        \<and> ''NDVI'' \<notin> set (bandNames img) \<and> ''NDWI'' \<notin> set (bandNames img) \<longrightarrow>
      apply_indices img (Some [Some ''NDVI'', Some ''BOGUS'', Some ''NDWI'']) =
        Inr (img\<lparr>bands := bands img @
                     [(''NDVI'', Computed (NormalizedDifference ''NIR'' ''RED'') (bands img)),
                      (''NDWI'', Computed (NormalizedDifference ''GREEN'' ''NIR'') (bands img))],
                 props := (props img)(''has_20m_indices'' \<mapsto> PBool False)\<rparr>))"
proof (intro conjI impI)
  show "apply_indices img (drop_unknown names) = apply_indices img names"
    by (simp only: apply_indices_def names_norm_drop_unknown add_indices_filter has_20m_filter)
next
  assume h: "set [''NIR'', ''RED'', ''GREEN''] \<subseteq> set (bandNames img)
        \<and> ''NDVI'' \<notin> set (bandNames img) \<and> ''NDWI'' \<notin> set (bandNames img)"
  have nn: "names_norm (Some [Some ''NDVI'', Some ''BOGUS'', Some ''NDWI'']) = [''NDVI'', ''BOGUS'', ''NDWI'']"
    by code_simp
  have c: "canon ''NDVI'' = Some ''NDVI''" "canon ''BOGUS'' = None" "canon ''NDWI'' = Some ''NDWI''"
    by code_simp+
  have f: "index_func ''NDVI'' = Inr (NormalizedDifference ''NIR'' ''RED'', ''NDVI'')"
    "index_func ''NDWI'' = Inr (NormalizedDifference ''GREEN'' ''NIR'', ''NDWI'')"
    by (simp_all add: index_func_def INDEX_FUNCS_def)
  have h20: "\<not> has_20m [''NDVI'', ''BOGUS'', ''NDWI'']"
    by code_simp
  have i1: "index_image img (NormalizedDifference ''NIR'' ''RED'', ''NDVI'') =
      Inr \<lparr>bands = [(''NDVI'', Computed (NormalizedDifference ''NIR'' ''RED'') (bands img))], props = Map.empty\<rparr>"
    using h index_image_ok [of "(NormalizedDifference ''NIR'' ''RED'', ''NDVI'')" img] by simp
  have i2: "index_image img (NormalizedDifference ''GREEN'' ''NIR'', ''NDWI'') =
      Inr \<lparr>bands = [(''NDWI'', Computed (NormalizedDifference ''GREEN'' ''NIR'') (bands img))], props = Map.empty\<rparr>"
    using h index_image_ok [of "(NormalizedDifference ''GREEN'' ''NIR'', ''NDWI'')" img] by simp
  show "apply_indices img (Some [Some ''NDVI'', Some ''BOGUS'', Some ''NDWI'']) =
        Inr (img\<lparr>bands := bands img @
                     [(''NDVI'', Computed (NormalizedDifference ''NIR'' ''RED'') (bands img)),
                      (''NDWI'', Computed (NormalizedDifference ''GREEN'' ''NIR'') (bands img))],
                 props := (props img)(''has_20m_indices'' \<mapsto> PBool False)\<rparr>)"
    using h unfolding apply_indices_def nn
    by (simp add: c f i1 i2 h20 addBands_def unique_name_def bandNames_def)
qed

theorem unknown_names_skipped_witness:
  "apply_indices s2_image (drop_unknown (Some [Some ''EVI'', Some ''nope'']))
     = apply_indices s2_image (Some [Some ''EVI'', Some ''nope''])
   \<and> drop_unknown (Some [Some ''EVI'', Some ''nope'']) = Some [Some ''EVI'']
   \<and> set [''NIR'', ''RED'', ''GREEN''] \<subseteq> set (bandNames s2_image)
   \<and> ''NDVI'' \<notin> set (bandNames s2_image) \<and> ''NDWI'' \<notin> set (bandNames s2_image)
   \<and> apply_indices s2_image (Some [Some ''NDVI'', Some ''BOGUS'', Some ''NDWI'']) =
        Inr (s2_image\<lparr>bands := bands s2_image @
                     [(''NDVI'', Computed (NormalizedDifference ''NIR'' ''RED'') (bands s2_image)),
                      (''NDWI'', Computed (NormalizedDifference ''GREEN'' ''NIR'') (bands s2_image))],
                 props := (props s2_image)(''has_20m_indices'' \<mapsto> PBool False)\<rparr>)"
proof -
  have d: "drop_unknown (Some [Some ''EVI'', Some ''nope'']) = Some [Some ''EVI'']"
    by code_simp
  have h: "set [''NIR'', ''RED'', ''GREEN''] \<subseteq> set (bandNames s2_image)
        \<and> ''NDVI'' \<notin> set (bandNames s2_image) \<and> ''NDWI'' \<notin> set (bandNames s2_image)"
    by code_simp
  from unknown_names_skipped [of s2_image "Some [Some ''EVI'', Some ''nope'']"] d h
  show ?thesis by blast
qed

text \<open>
  Claim C10. For every request (\<open>None\<close> and the empty list included) on an image that
  meets the band-name contract, \<open>apply_indices\<close> keeps the bands of the input image
  unchanged and in order, appends one band per recognized name, computed from the input
  image, and sets the property \<open>has_20m_indices\<close>, true exactly when a normalised
  requested name is one of NDRE, CIRE, NDMI, NBR, MNDWI. When no requested name is
  recognized the result is the input image with that property set and nothing else
  changed, for every image.
\<close>

theorem apply_indices_frame:
  "(recognized names = [] \<longrightarrow>
      apply_indices img names =
        Inr (img\<lparr>props := (props img)(''has_20m_indices'' \<mapsto> PBool False)\<rparr>))
   \<and> (set canonical_roles \<subseteq> set (bandNames img) \<longrightarrow>
      (\<exists>new. apply_indices img names =
          Inr (img\<lparr>bands := bands img @ new,
                   props := (props img)(''has_20m_indices'' \<mapsto>
                      PBool (\<exists>n \<in> set (names_norm names).
                               n \<in> {''NDRE'', ''CIRE'', ''NDMI'', ''NBR'', ''MNDWI''}))\<rparr>)
        \<and> map snd new = map (\<lambda>k. Computed (index_formula k) (bands img)) (recognized names)))"
proof (intro conjI impI)
  assume r: "recognized names = []"
  have "\<not> has_20m (names_norm names)"
  proof
    assume "has_20m (names_norm names)"
    then obtain n where n: "n \<in> set (names_norm names)" "n \<in> set INDICES_REQUIRE_20M"
      by (auto simp: has_20m_def list_ex_iff)
    from req20_known [OF n(2)] obtain k where "canon n = Some k" by auto
    with n(1) have "k \<in> set (List.map_filter canon (names_norm names))"
      by (force simp: map_filter_def)
    with r show False by (simp add: recognized_def)
  qed
  with r show "apply_indices img names =
        Inr (img\<lparr>props := (props img)(''has_20m_indices'' \<mapsto> PBool False)\<rparr>)"
    by (simp add: apply_indices_def recognized_def add_indices_unrecognized)
next
  assume roles: "set canonical_roles \<subseteq> set (bandNames img)"
  from add_indices_frame [OF roles, of img "names_norm names"] obtain new where
    new: "add_indices img img (names_norm names) = Inr (img\<lparr>bands := bands img @ new\<rparr>)"
      "map snd new = map (\<lambda>k. Computed (index_formula k) (bands img)) (recognized names)"
    by (auto simp: recognized_def)
  have "apply_indices img names =
          Inr (img\<lparr>bands := bands img @ new,
                   props := (props img)(''has_20m_indices'' \<mapsto>
                      PBool (\<exists>n \<in> set (names_norm names).
                               n \<in> {''NDRE'', ''CIRE'', ''NDMI'', ''NBR'', ''MNDWI''}))\<rparr>)"
    using new(1) by (simp add: apply_indices_def has_20m_iff)
  with new(2) show "\<exists>new. apply_indices img names =
          Inr (img\<lparr>bands := bands img @ new,
                   props := (props img)(''has_20m_indices'' \<mapsto>
                      PBool (\<exists>n \<in> set (names_norm names).
                               n \<in> {''NDRE'', ''CIRE'', ''NDMI'', ''NBR'', ''MNDWI''}))\<rparr>)
        \<and> map snd new = map (\<lambda>k. Computed (index_formula k) (bands img)) (recognized names)"
    by blast
qed

theorem apply_indices_frame_witness:
  "recognized (Some [Some ''BOGUS'']) = []
   \<and> apply_indices s2_image (Some [Some ''BOGUS'']) =
        Inr (s2_image\<lparr>props := (props s2_image)(''has_20m_indices'' \<mapsto> PBool False)\<rparr>)
   \<and> set canonical_roles \<subseteq> set (bandNames s2_image)
   \<and> (\<exists>new. apply_indices s2_image (Some [Some '' ndvi'', None, Some ''CIre'']) =
          Inr (s2_image\<lparr>bands := bands s2_image @ new,
                        props := (props s2_image)(''has_20m_indices'' \<mapsto> PBool True)\<rparr>)
        \<and> map snd new = [Computed (index_formula ''NDVI'') (bands s2_image),
                           Computed (index_formula ''CIre'') (bands s2_image)])"
proof -
  have h1: "recognized (Some [Some ''BOGUS'']) = []"
    by code_simp
  have h2: "set canonical_roles \<subseteq> set (bandNames s2_image)"
    by code_simp
  have h3: "(\<exists>n \<in> set (names_norm (Some [Some '' ndvi'', None, Some ''CIre''])).
               n \<in> {''NDRE'', ''CIRE'', ''NDMI'', ''NBR'', ''MNDWI''}) = True"
    by code_simp
  have h4: "recognized (Some [Some '' ndvi'', None, Some ''CIre'']) = [''NDVI'', ''CIre'']"
    by code_simp
  from apply_indices_frame [of "Some [Some ''BOGUS'']" s2_image] h1
  have a: "apply_indices s2_image (Some [Some ''BOGUS'']) =
        Inr (s2_image\<lparr>props := (props s2_image)(''has_20m_indices'' \<mapsto> PBool False)\<rparr>)"
    by blast
  from apply_indices_frame [of "Some [Some '' ndvi'', None, Some ''CIre'']" s2_image] h2
  have b: "\<exists>new. apply_indices s2_image (Some [Some '' ndvi'', None, Some ''CIre'']) =
          Inr (s2_image\<lparr>bands := bands s2_image @ new,
                        props := (props s2_image)(''has_20m_indices'' \<mapsto> PBool True)\<rparr>)
        \<and> map snd new = [Computed (index_formula ''NDVI'') (bands s2_image),
                           Computed (index_formula ''CIre'') (bands s2_image)]"
    unfolding h3 h4 by simp
  from h1 a h2 b show ?thesis by blast
qed

lemma index_formula_EVI:
  "index_formula ''EVI'' =
     Expression
       (Times (Num 2.5)
          (Over (Minus (Var ''NIR'') (Var ''RED''))
             (Plus (Minus (Plus (Var ''NIR'') (Times (Num 6) (Var ''RED'')))
                      (Times (Num 7.5) (Var ''BLUE'')))
                (Num 1))))
       [(''NIR'', Band ''NIR''), (''RED'', Band ''RED''), (''BLUE'', Band ''BLUE'')]"
  by (simp add: index_formula_def index_func_def INDEX_FUNCS_def)

lemma index_formula_GCI:
  "index_formula ''GCI'' = Subtract (safe_ratio (Select ''NIR'') (Select ''GREEN'')) (Constant 1)"
  by (simp add: index_formula_def index_func_def INDEX_FUNCS_def)

lemma index_formula_CIre:
  "index_formula ''CIre'' = Subtract (safe_ratio (Select ''NIR'') (Select ''RE4'')) (Constant 1)"
  by (simp add: index_formula_def index_func_def INDEX_FUNCS_def)

text \<open>
  Claim C4, as stated: every index whose formula divides replaces a zero denominator by
  1e-6 before dividing. EVI divides inside its expression, with no substitution: at the
  pixel NIR = 6.5, RED = 0, BLUE = 1 its denominator \<open>NIR + 6 RED - 7.5 BLUE + 1\<close> is
  exactly zero, the engine's division gives 0 and EVI is 0, where the substitution
  would give \<open>2.5 * 6.5 / 1e-6\<close>.
\<close>

theorem EVI_unguarded:
  "pixel (px_sample 6.5 0 0 1) (index_formula ''EVI'') = Some 0
   \<and> spec_guarded_pixel (px_sample 6.5 0 0 1) (index_formula ''EVI'') = Some 16250000"
  by (simp add: index_formula_EVI pixel_def spec_guarded_pixel_def operand_value_def lift2_def
      px_sample_def ee_divide_def spec_guarded_divide_def)

text \<open>
  Claim C4, amended: the two indices that go through \<open>_safe_ratio\<close>, GCI and CIre,
  replace a denominator band that is exactly zero by 1e-6 before dividing; they have a
  value at every pixel, \<open>NIR / 1e-6 - 1\<close> on the substitution path, and reading their
  formula with the guarded division changes nothing.
\<close>

theorem safe_ratio_indices_guarded:
  "pixel px (index_formula ''GCI'') =
     Some (px ''NIR'' / (if px ''GREEN'' = 0 then 1 / 10 ^ 6 else px ''GREEN'') - 1)
   \<and> pixel px (index_formula ''CIre'') =
     Some (px ''NIR'' / (if px ''RE4'' = 0 then 1 / 10 ^ 6 else px ''RE4'') - 1)
   \<and> spec_guarded_pixel px (index_formula ''GCI'') = pixel px (index_formula ''GCI'')
   \<and> spec_guarded_pixel px (index_formula ''CIre'') = pixel px (index_formula ''CIre'')"
  by (simp add: index_formula_GCI index_formula_CIre pixel_def spec_guarded_pixel_def
      safe_ratio_def lift2_def ee_divide_def spec_guarded_divide_def)

section \<open>Properties of monthly bucketing\<close>







section \<open>Properties of the SOF request filter\<close>

lemma fold_request_or_warn:
  "fold (\<lambda>fr. request_or_warn fam d st fr) fracs s =
     (fst s @ concat (map (\<lambda>fr. if sof_is_available fam d st fr then [(fam, d, st, fr)] else []) fracs),
      snd s @ concat (map (\<lambda>fr. if sof_is_available fam d st fr then [] else [skip_warning fam st d fr]) fracs))"
  by (induction fracs arbitrary: s) (auto simp: request_or_warn_def)

lemma fold_depths:
  "fold (\<lambda>d. fold (\<lambda>fr. request_or_warn fam d st fr) fracs) ds s =
     (fst s @ concat (map (\<lambda>d. concat (map (\<lambda>fr. if sof_is_available fam d st fr then [(fam, d, st, fr)] else []) fracs)) ds),
      snd s @ concat (map (\<lambda>d. concat (map (\<lambda>fr. if sof_is_available fam d st fr then [] else [skip_warning fam st d fr]) fracs)) ds))"
  by (induction ds arbitrary: s) (auto simp: fold_request_or_warn)

lemma stocks_available: "sof_is_available ''Stocks'' ''000_030'' ''EV'' fr"
  by (simp add: sof_is_available_def)

lemma family_requests_closed:
  "family_requests cfg fam s = (fst s @ family_issued cfg fam, snd s @ family_warned cfg fam)"
proof (cases "fam = ''Stocks''")
  case True
  have "concat (map (\<lambda>fr. [(''Stocks'', ''000_030'', ''EV'', fr)]) (fractions cfg))
      = map (\<lambda>fr. (''Stocks'', ''000_030'', ''EV'', fr)) (fractions cfg)"
    by (induction "fractions cfg") auto
  with True show ?thesis
    by (simp add: family_requests_def family_issued_def family_warned_def fold_request_or_warn
        stocks_available)
next
  case False
  then show ?thesis
    by (simp add: family_requests_def family_issued_def family_warned_def fold_depths)
qed

lemma fold_family_requests:
  "fold (family_requests cfg) fams s =
     (fst s @ concat (map (family_issued cfg) fams), snd s @ concat (map (family_warned cfg) fams))"
  by (induction fams arbitrary: s) (auto simp: family_requests_closed)

lemma build_requests_closed:
  "build_requests cfg =
     (concat (map (family_issued cfg) (families cfg)), concat (map (family_warned cfg) (families cfg)))"
  by (simp add: build_requests_def fold_family_requests)

lemma issued_available:
  "r \<in> set (family_issued cfg fam) \<Longrightarrow> (case r of (f, d, st, fr) \<Rightarrow> sof_is_available f d st fr)"
  by (auto simp: family_issued_def stocks_available split: if_splits)

lemma in_family_issued:
  assumes "fam \<noteq> ''Stocks''"
  shows "(fam, d, st, fr) \<in> set (family_issued cfg fam) \<longleftrightarrow>
    d \<in> set (depths cfg) \<and> fr \<in> set (fractions cfg) \<and> st = stat cfg \<and> sof_is_available fam d (stat cfg) fr"
  using assms by (auto simp: family_issued_def split: if_splits)

lemma in_family_warned:
  assumes "fam \<noteq> ''Stocks''" "d \<in> set (depths cfg)" "fr \<in> set (fractions cfg)"
    "\<not> sof_is_available fam d (stat cfg) fr"
  shows "skip_warning fam (stat cfg) d fr \<in> set (family_warned cfg fam)"
  using assms by (auto simp: family_warned_def)

text \<open>
  Claim C7, as stated: every unsupported combination of family, depth, statistic and
  fraction is skipped with a warning. A configuration that asks for the family Stocks at
  depth 000_005 asks for an unsupported combination, and it passes the checks; the loop
  does not look at the configured depths or statistic for Stocks: it requests depth
  000_030 at EV instead, and logs no warning.
\<close>

theorem stocks_shallow_no_warning:
  "configured stocks_shallow (''Stocks'', ''000_005'', ''EV'', ''MAOC'')
   \<and> \<not> sof_is_available ''Stocks'' ''000_005'' ''EV'' ''MAOC''
   \<and> sof_requests stocks_shallow = Inr ([(''Stocks'', ''000_030'', ''EV'', ''MAOC'')], [])"
  by code_simp

text \<open>
  Claim C7, amended: request filtering follows the static availability table. Every
  request that is issued is available, so no unsupported combination is ever requested;
  in particular Stocks at depth 000_005 is never issued. For a family other than Stocks,
  a configured combination is requested when it is available (Proportions, 000_005, 05
  is) and otherwise skipped with a warning (Proportions, 015_030, EV is). For Stocks the
  configured depths and statistic are not consulted: the one published combination,
  depth 000_030 at EV, is requested for every configured fraction, and no warning is
  logged for Stocks.
\<close>

theorem sof_request_filtering:
  "build_requests cfg =
     (concat (map (family_issued cfg) (families cfg)), concat (map (family_warned cfg) (families cfg)))
   \<and> (\<forall>r \<in> set (fst (build_requests cfg)).
         case r of (fam, d, st, fr) \<Rightarrow> sof_is_available fam d st fr)
   \<and> (\<forall>fam d fr. fam \<in> set (families cfg) \<and> fam \<noteq> ''Stocks'' \<and> d \<in> set (depths cfg)
          \<and> fr \<in> set (fractions cfg) \<longrightarrow>
         (if sof_is_available fam d (stat cfg) fr
          then (fam, d, stat cfg, fr) \<in> set (fst (build_requests cfg))
          else (fam, d, stat cfg, fr) \<notin> set (fst (build_requests cfg))
               \<and> skip_warning fam (stat cfg) d fr \<in> set (snd (build_requests cfg))))
   \<and> (\<forall>fr. ''Stocks'' \<in> set (families cfg) \<and> fr \<in> set (fractions cfg) \<longrightarrow>
         (''Stocks'', ''000_030'', ''EV'', fr) \<in> set (fst (build_requests cfg)))
   \<and> family_warned cfg ''Stocks'' = []
   \<and> (''Stocks'', ''000_005'', st, fr) \<notin> set (fst (build_requests cfg))
   \<and> sof_is_available ''Proportions'' ''000_005'' ''05'' fr
   \<and> \<not> sof_is_available ''Proportions'' ''015_030'' ''EV'' fr"
proof (intro conjI allI impI ballI)
  show "build_requests cfg =
     (concat (map (family_issued cfg) (families cfg)), concat (map (family_warned cfg) (families cfg)))"
    by (rule build_requests_closed)
next
  fix r assume "r \<in> set (fst (build_requests cfg))"
  then obtain fam where "r \<in> set (family_issued cfg fam)"
    by (auto simp: build_requests_closed)
  then show "case r of (fam, d, st, fr) \<Rightarrow> sof_is_available fam d st fr"
    by (rule issued_available)
next
  fix fam d fr
  assume h: "fam \<in> set (families cfg) \<and> fam \<noteq> ''Stocks'' \<and> d \<in> set (depths cfg)
          \<and> fr \<in> set (fractions cfg)"
  show "if sof_is_available fam d (stat cfg) fr
          then (fam, d, stat cfg, fr) \<in> set (fst (build_requests cfg))
          else (fam, d, stat cfg, fr) \<notin> set (fst (build_requests cfg))
               \<and> skip_warning fam (stat cfg) d fr \<in> set (snd (build_requests cfg))"
  proof (cases "sof_is_available fam d (stat cfg) fr")
    case True
    with h have "(fam, d, stat cfg, fr) \<in> set (family_issued cfg fam)"
      by (simp add: in_family_issued)
    with h True show ?thesis by (auto simp: build_requests_closed)
  next
    case False
    have "(fam, d, stat cfg, fr) \<notin> set (fst (build_requests cfg))"
    proof
      assume "(fam, d, stat cfg, fr) \<in> set (fst (build_requests cfg))"
      then obtain f where "(fam, d, stat cfg, fr) \<in> set (family_issued cfg f)"
        by (auto simp: build_requests_closed)
      from issued_available [OF this] False show False by simp
    qed
    moreover from h False have "skip_warning fam (stat cfg) d fr \<in> set (family_warned cfg fam)"
      by (simp add: in_family_warned)
    with h have "skip_warning fam (stat cfg) d fr \<in> set (snd (build_requests cfg))"
      by (auto simp: build_requests_closed)
    ultimately show ?thesis using False by simp
  qed
next
  fix fr
  assume h: "''Stocks'' \<in> set (families cfg) \<and> fr \<in> set (fractions cfg)"
  then have "(''Stocks'', ''000_030'', ''EV'', fr) \<in> set (family_issued cfg ''Stocks'')"
    by (simp add: family_issued_def)
  with h show "(''Stocks'', ''000_030'', ''EV'', fr) \<in> set (fst (build_requests cfg))"
    by (auto simp: build_requests_closed)
next
  show "family_warned cfg ''Stocks'' = []"
    by (simp add: family_warned_def)
next
  show "(''Stocks'', ''000_005'', st, fr) \<notin> set (fst (build_requests cfg))"
  proof
    assume "(''Stocks'', ''000_005'', st, fr) \<in> set (fst (build_requests cfg))"
    then obtain f where "(''Stocks'', ''000_005'', st, fr) \<in> set (family_issued cfg f)"
      by (auto simp: build_requests_closed)
    from issued_available [OF this] show False
      by (simp add: sof_is_available_def)
  qed
next
  show "sof_is_available ''Proportions'' ''000_005'' ''05'' fr"
    by (simp add: sof_is_available_def)
next
  show "\<not> sof_is_available ''Proportions'' ''015_030'' ''EV'' fr"
    by (simp add: sof_is_available_def)
qed

theorem sof_request_filtering_witness:
  "(''Proportions'', ''000_005'', ''05'', ''MAOC'') \<in> set (fst (build_requests (proportions_cfg ''05'')))
   \<and> (''Proportions'', ''015_030'', ''EV'', ''MAOC'') \<notin> set (fst (build_requests (proportions_cfg ''EV'')))
   \<and> skip_warning ''Proportions'' ''EV'' ''015_030'' ''MAOC'' \<in> set (snd (build_requests (proportions_cfg ''EV'')))
   \<and> (''Stocks'', ''000_030'', ''EV'', ''MAOC'') \<in> set (fst (build_requests stocks_shallow))
   \<and> (''Stocks'', ''000_005'', ''EV'', ''MAOC'') \<notin> set (fst (build_requests stocks_shallow))"
proof -
  have p05: "''Proportions'' \<in> set (families (proportions_cfg ''05'')) \<and> ''Proportions'' \<noteq> ''Stocks''
      \<and> ''000_005'' \<in> set (depths (proportions_cfg ''05'')) \<and> ''MAOC'' \<in> set (fractions (proportions_cfg ''05''))"
    by (simp add: proportions_cfg_def)
  have s05: "stat (proportions_cfg ''05'') = ''05''"
    by (simp add: proportions_cfg_def)
  have pev: "''Proportions'' \<in> set (families (proportions_cfg ''EV'')) \<and> ''Proportions'' \<noteq> ''Stocks''
      \<and> ''015_030'' \<in> set (depths (proportions_cfg ''EV'')) \<and> ''MAOC'' \<in> set (fractions (proportions_cfg ''EV''))"
    by (simp add: proportions_cfg_def)
  have sev: "stat (proportions_cfg ''EV'') = ''EV''"
    by (simp add: proportions_cfg_def)
  have st: "''Stocks'' \<in> set (families stocks_shallow) \<and> ''MAOC'' \<in> set (fractions stocks_shallow)"
    by (simp add: stocks_shallow_def)
  note t05 = sof_request_filtering [of "proportions_cfg ''05''" "''EV''" "''MAOC''"]
  note tev = sof_request_filtering [of "proportions_cfg ''EV''" "''EV''" "''MAOC''"]
  note tst = sof_request_filtering [of stocks_shallow "''EV''" "''MAOC''"]
  from t05 have a05: "sof_is_available ''Proportions'' ''000_005'' ''05'' ''MAOC''"
    and nev: "\<not> sof_is_available ''Proportions'' ''015_030'' ''EV'' ''MAOC''"
    by blast+
  from t05 p05 have "if sof_is_available ''Proportions'' ''000_005'' (stat (proportions_cfg ''05'')) ''MAOC''
          then (''Proportions'', ''000_005'', stat (proportions_cfg ''05''), ''MAOC'') \<in> set (fst (build_requests (proportions_cfg ''05'')))
          else (''Proportions'', ''000_005'', stat (proportions_cfg ''05''), ''MAOC'') \<notin> set (fst (build_requests (proportions_cfg ''05'')))
               \<and> skip_warning ''Proportions'' (stat (proportions_cfg ''05'')) ''000_005'' ''MAOC'' \<in> set (snd (build_requests (proportions_cfg ''05'')))"
    by blast
  with a05 have c1: "(''Proportions'', ''000_005'', ''05'', ''MAOC'') \<in> set (fst (build_requests (proportions_cfg ''05'')))"
    unfolding s05 by simp
  from tev pev have "if sof_is_available ''Proportions'' ''015_030'' (stat (proportions_cfg ''EV'')) ''MAOC''
          then (''Proportions'', ''015_030'', stat (proportions_cfg ''EV''), ''MAOC'') \<in> set (fst (build_requests (proportions_cfg ''EV'')))
          else (''Proportions'', ''015_030'', stat (proportions_cfg ''EV''), ''MAOC'') \<notin> set (fst (build_requests (proportions_cfg ''EV'')))
               \<and> skip_warning ''Proportions'' (stat (proportions_cfg ''EV'')) ''015_030'' ''MAOC'' \<in> set (snd (build_requests (proportions_cfg ''EV'')))"
    by blast
  with nev have c2: "(''Proportions'', ''015_030'', ''EV'', ''MAOC'') \<notin> set (fst (build_requests (proportions_cfg ''EV'')))
      \<and> skip_warning ''Proportions'' ''EV'' ''015_030'' ''MAOC'' \<in> set (snd (build_requests (proportions_cfg ''EV'')))"
    unfolding sev by simp
  from tst st have c3: "(''Stocks'', ''000_030'', ''EV'', ''MAOC'') \<in> set (fst (build_requests stocks_shallow))"
    by blast
  from tst have c4: "(''Stocks'', ''000_005'', ''EV'', ''MAOC'') \<notin> set (fst (build_requests stocks_shallow))"
    by blast
  from c1 c2 c3 c4 show ?thesis by blast
qed

section \<open>Properties of the SILO sampler\<close>













section \<open>Properties of the orchestrator\<close>

lemma errors_late_stages: "errors (late_stages w cfg r) = errors r @ late_errors w cfg"
  by (simp add: late_stages_def preview_stage_def record_export_def late_errors_def
      export_cube_table_def export_pixel_samples_def add_error_def add_step_def add_artifact_def
      split: option.splits)

lemma steps_late_stages: "take (length (steps r)) (steps (late_stages w cfg r)) = steps r"
  by (simp add: late_stages_def preview_stage_def record_export_def
      export_cube_table_def export_pixel_samples_def add_error_def add_step_def add_artifact_def
      split: option.splits)

text \<open>
  Claim C9, as stated: a failure of an early stage ends the run with a raised exception.
  It does not: when the loading of the region fails in a run whose configuration is
  valid, the orchestrator records the error under \<open>load_roi\<close> and returns the report.
\<close>

theorem roi_failure_not_raised:
  "run_pipeline_quick (all_fine\<lparr>w_load_roi := Some (OtherError ''no file'')\<rparr>) demo_config =
     Inr \<lparr>steps = [], errors = [(''load_roi'', OtherError ''no file'')], artifacts = []\<rparr>"
  by code_simp

text \<open>
  Claim C9, amended: every run whose configuration validates (and whose logger can be
  set up) ends with a returned run report; only those two steps before the first stage
  raise. When an early stage fails (engine initialisation, region loading, time series,
  monthly mosaics, cube assembly), the report holds the steps of the stages before it,
  that one error under the name of the stage, and no artifact: the run ends there and no
  later stage runs. When all early stages succeed, the four steps are recorded, and an
  exception that leaves a late stage (the two exports, the preview) is recorded as an
  error of the report while the orchestrator proceeds to the next stage.
\<close>

theorem early_failure_returns_report:
  assumes "validate w cfg = None" and "w_setup_logger w = None"
  shows "(\<exists>report. run_pipeline_quick w cfg = Inr report)
    \<and> (w_initialize w = Some e \<longrightarrow>
         run_pipeline_quick w cfg =
           Inr \<lparr>steps = [], errors = [(''ee.Initialize'', e)], artifacts = []\<rparr>)
    \<and> (w_initialize w = None \<and> w_load_roi w = Some e \<longrightarrow>
         run_pipeline_quick w cfg =
           Inr \<lparr>steps = [], errors = [(''load_roi'', e)], artifacts = []\<rparr>)
    \<and> (w_initialize w = None \<and> w_load_roi w = None \<and> w_time_series w = Some e \<longrightarrow>
         run_pipeline_quick w cfg =
           Inr \<lparr>steps = take 1 (early_steps cfg 0), errors = [(''compose_time_series'', e)],
                artifacts = []\<rparr>)
    \<and> (w_initialize w = None \<and> w_load_roi w = None \<and> w_time_series w = None
         \<and> w_monthly w = Some e \<longrightarrow>
         run_pipeline_quick w cfg =
           Inr \<lparr>steps = take 2 (early_steps cfg 0), errors = [(''safe_monthly_mosaics'', e)],
                artifacts = []\<rparr>)
    \<and> (w_initialize w = None \<and> w_load_roi w = None \<and> w_time_series w = None
         \<and> w_monthly w = None \<and> w_cube w = Inl e \<longrightarrow>
         run_pipeline_quick w cfg =
           Inr \<lparr>steps = take 3 (early_steps cfg 0), errors = [(''assemble_cube'', e)],
                artifacts = []\<rparr>)
    \<and> (w_initialize w = None \<and> w_load_roi w = None \<and> w_time_series w = None
         \<and> w_monthly w = None \<and> w_cube w = Inr n \<longrightarrow>
         (\<exists>report. run_pipeline_quick w cfg = Inr report
            \<and> take 4 (steps report) = early_steps cfg n
            \<and> errors report = late_errors w cfg))"
proof (intro conjI impI)
  show "\<exists>report. run_pipeline_quick w cfg = Inr report"
    using assms
    by (simp add: run_pipeline_quick_def Let_def split: option.splits sum.splits)
next
  assume "w_initialize w = Some e"
  with assms show "run_pipeline_quick w cfg =
           Inr \<lparr>steps = [], errors = [(''ee.Initialize'', e)], artifacts = []\<rparr>"
    by (simp add: run_pipeline_quick_def new_report_def add_error_def)
next
  assume "w_initialize w = None \<and> w_load_roi w = Some e"
  with assms show "run_pipeline_quick w cfg =
           Inr \<lparr>steps = [], errors = [(''load_roi'', e)], artifacts = []\<rparr>"
    by (simp add: run_pipeline_quick_def new_report_def add_error_def)
next
  assume "w_initialize w = None \<and> w_load_roi w = None \<and> w_time_series w = Some e"
  with assms show "run_pipeline_quick w cfg =
           Inr \<lparr>steps = take 1 (early_steps cfg 0), errors = [(''compose_time_series'', e)],
                artifacts = []\<rparr>"
    by (simp add: run_pipeline_quick_def new_report_def add_error_def add_step_def early_steps_def)
next
  assume "w_initialize w = None \<and> w_load_roi w = None \<and> w_time_series w = None
         \<and> w_monthly w = Some e"
  with assms show "run_pipeline_quick w cfg =
           Inr \<lparr>steps = take 2 (early_steps cfg 0), errors = [(''safe_monthly_mosaics'', e)],
                artifacts = []\<rparr>"
    by (simp add: run_pipeline_quick_def new_report_def add_error_def add_step_def early_steps_def
        eval_nat_numeral)
next
  assume "w_initialize w = None \<and> w_load_roi w = None \<and> w_time_series w = None
         \<and> w_monthly w = None \<and> w_cube w = Inl e"
  with assms show "run_pipeline_quick w cfg =
           Inr \<lparr>steps = take 3 (early_steps cfg 0), errors = [(''assemble_cube'', e)],
                artifacts = []\<rparr>"
    by (simp add: run_pipeline_quick_def new_report_def add_error_def add_step_def early_steps_def
        eval_nat_numeral)
next
  assume h: "w_initialize w = None \<and> w_load_roi w = None \<and> w_time_series w = None
         \<and> w_monthly w = None \<and> w_cube w = Inr n"
  let ?r = "\<lparr>steps = early_steps cfg n, errors = [], artifacts = []\<rparr>"
  have run: "run_pipeline_quick w cfg = Inr (late_stages w cfg ?r)"
    using assms h
    by (simp add: run_pipeline_quick_def new_report_def add_step_def early_steps_def)
  have "take 4 (steps (late_stages w cfg ?r)) = early_steps cfg n"
    using steps_late_stages [of ?r w cfg] by (simp add: early_steps_def eval_nat_numeral)
  moreover have "errors (late_stages w cfg ?r) = late_errors w cfg"
    by (simp add: errors_late_stages)
  ultimately show "\<exists>report. run_pipeline_quick w cfg = Inr report
            \<and> take 4 (steps report) = early_steps cfg n
            \<and> errors report = late_errors w cfg"
    using run by blast
qed

theorem early_failure_returns_report_witness:
  "validate (all_fine\<lparr>w_cube := Inl (NullArgument ''Image.bandNames'')\<rparr>) demo_config = None
   \<and> run_pipeline_quick (all_fine\<lparr>w_cube := Inl (NullArgument ''Image.bandNames'')\<rparr>) demo_config =
       Inr \<lparr>steps = take 3 (early_steps demo_config 0),
            errors = [(''assemble_cube'', NullArgument ''Image.bandNames'')], artifacts = []\<rparr>
   \<and> validate (all_fine\<lparr>w_show_on_map := Some (OtherError ''map'')\<rparr>) demo_config = None
   \<and> (\<exists>report. run_pipeline_quick (all_fine\<lparr>w_show_on_map := Some (OtherError ''map'')\<rparr>) demo_config
                  = Inr report
         \<and> take 4 (steps report) = early_steps demo_config 12
         \<and> errors report = [(''preview'', OtherError ''map'')])"
proof -
  let ?w1 = "all_fine\<lparr>w_cube := Inl (NullArgument ''Image.bandNames'')\<rparr>"
  let ?w2 = "all_fine\<lparr>w_show_on_map := Some (OtherError ''map'')\<rparr>"
  have v1: "validate ?w1 demo_config = None"
    by code_simp
  have v2: "validate ?w2 demo_config = None"
    by code_simp
  have l1: "w_setup_logger ?w1 = None" and l2: "w_setup_logger ?w2 = None"
    by (simp_all add: all_fine_def)
  have e1: "w_initialize ?w1 = None \<and> w_load_roi ?w1 = None \<and> w_time_series ?w1 = None
         \<and> w_monthly ?w1 = None \<and> w_cube ?w1 = Inl (NullArgument ''Image.bandNames'')"
    by (simp add: all_fine_def)
  have e2: "w_initialize ?w2 = None \<and> w_load_roi ?w2 = None \<and> w_time_series ?w2 = None
         \<and> w_monthly ?w2 = None \<and> w_cube ?w2 = Inr 12"
    by (simp add: all_fine_def)
  have le: "late_errors ?w2 demo_config = [(''preview'', OtherError ''map'')]"
    by (simp add: late_errors_def all_fine_def demo_config_def)
  from early_failure_returns_report [OF v1 l1, of "NullArgument ''Image.bandNames''" 0] e1
  have a: "run_pipeline_quick ?w1 demo_config =
       Inr \<lparr>steps = take 3 (early_steps demo_config 0),
            errors = [(''assemble_cube'', NullArgument ''Image.bandNames'')], artifacts = []\<rparr>"
    by blast
  from early_failure_returns_report [OF v2 l2, of "OtherError ''x''" 12] e2
  have b: "\<exists>report. run_pipeline_quick ?w2 demo_config = Inr report
         \<and> take 4 (steps report) = early_steps demo_config 12
         \<and> errors report = late_errors ?w2 demo_config"
    by blast
  from v1 a v2 b show ?thesis unfolding le by blast
qed

section \<open>Properties of coordinate snapping\<close>

lemma py_round_near:
  assumes "\<bar>q - of_int k\<bar> < 1 / 2"
  shows "py_round q = k"
proof (cases "of_int k \<le> q")
  case True
  with assms have "q < of_int k + 1" by linarith
  with True have f: "\<lfloor>q\<rfloor> = k" by (simp add: floor_eq_iff)
  from assms True have "q - of_int k < 1 / 2" by linarith
  with f show ?thesis by (simp add: py_round_def Let_def)
next
  case False
  from assms False have lo: "of_int k - 1 \<le> q" and hi: "q < of_int k"
    by linarith+
  then have f: "\<lfloor>q\<rfloor> = k - 1" by (simp add: floor_eq_iff)
  from assms False have "1 / 2 < q - (of_int k - 1)" by linarith
  with f show ?thesis by (simp add: py_round_def Let_def)
qed

lemma py_round_close: "\<bar>of_int (py_round q) - q\<bar> \<le> 1 / 2"
proof -
  have "of_int \<lfloor>q\<rfloor> \<le> q" "q < of_int \<lfloor>q\<rfloor> + 1" by linarith+
  then show ?thesis
    by (auto simp: py_round_def Let_def abs_le_iff)
qed

lemma rounding_rel:
  "double_rounding rnd \<Longrightarrow> 1 / 2 ^ 10 \<le> \<bar>x\<bar> \<Longrightarrow> \<bar>x\<bar> \<le> 2 ^ 60 \<Longrightarrow> \<bar>rnd x - x\<bar> \<le> \<bar>x\<bar> / 2 ^ 53"
  by (simp add: double_rounding_def)

lemma rounding_small:
  "double_rounding rnd \<Longrightarrow> \<bar>x\<bar> \<le> 1 / 2 ^ 10 \<Longrightarrow> \<bar>rnd x\<bar> \<le> 1 / 2 ^ 10"
  by (simp add: double_rounding_def)

lemma rounding_int:
  "double_rounding rnd \<Longrightarrow> \<bar>k\<bar> \<le> 2 ^ 53 \<Longrightarrow> rnd (of_int k) = of_int k"
  by (simp add: double_rounding_def)

lemma c_bounds:
  assumes "double_rounding rnd"
  shows "\<bar>rnd (5 / 100) - 5 / 100\<bar> \<le> (5 / 100) / 2 ^ 53"
    and "499 / 10000 \<le> rnd (5 / 100)" and "rnd (5 / 100) \<le> 501 / 10000"
proof -
  show a: "\<bar>rnd (5 / 100) - 5 / 100\<bar> \<le> (5 / 100) / 2 ^ 53"
    using rounding_rel [OF assms, of "5 / 100"] by simp
  have "(5 / 100) / 2 ^ 53 \<le> (1 / 10000 :: real)" by simp
  with a show "499 / 10000 \<le> rnd (5 / 100)" "rnd (5 / 100) \<le> 501 / 10000"
    by linarith+
qed

lemma resnap:
  assumes dr: "double_rounding rnd" and k0: "k \<noteq> 0" and kb: "\<bar>k\<bar> \<le> 2 ^ 20"
  shows "py_round (rnd (rnd (of_int k * rnd (5 / 100)) / rnd (5 / 100))) = k"
proof -
  define c where "c = rnd (5 / 100)"
  define K where "K = \<bar>of_int k :: real\<bar>"
  define a where "a = of_int k * c"
  define y where "y = rnd a"
  define t where "t = y / c"
  have c: "499 / 10000 \<le> c" "c \<le> 501 / 10000"
    using c_bounds [OF dr] by (simp_all add: c_def)
  then have cpos: "0 < c" by linarith
  have K1: "1 \<le> K"
  proof -
    have "1 \<le> \<bar>k\<bar>" using k0 by linarith
    then have "real_of_int 1 \<le> real_of_int \<bar>k\<bar>" by (simp only: of_int_le_iff)
    then show ?thesis by (simp add: K_def)
  qed
  have K2: "K \<le> 2 ^ 20"
  proof -
    have "real_of_int \<bar>k\<bar> \<le> real_of_int (2 ^ 20)" using kb by (simp only: of_int_le_iff)
    then show ?thesis by (simp add: K_def)
  qed
  have abs_a: "\<bar>a\<bar> = K * c"
    using cpos by (simp add: a_def K_def abs_mult)
  have a_lo: "1 / 2 ^ 10 \<le> \<bar>a\<bar>"
  proof -
    have "1 * (499 / 10000) \<le> K * c"
      using K1 c(1) by (intro mult_mono) auto
    then show ?thesis unfolding abs_a by simp
  qed
  have a_hi: "\<bar>a\<bar> \<le> 2 ^ 60"
  proof -
    have "K * c \<le> 2 ^ 20 * (501 / 10000)"
      using K1 K2 c cpos by (intro mult_mono) auto
    then show ?thesis unfolding abs_a by simp
  qed
  have ya: "\<bar>y - a\<bar> \<le> K * c / 2 ^ 53"
    using rounding_rel [OF dr a_lo a_hi] by (simp add: y_def abs_a)
  have "t - of_int k = (y - a) / c"
    using cpos by (simp add: t_def a_def field_simps)
  then have "\<bar>t - of_int k\<bar> = \<bar>y - a\<bar> / c"
    using cpos by (simp add: abs_divide)
  also have "\<dots> \<le> (K * c / 2 ^ 53) / c"
    using ya cpos by (intro divide_right_mono) auto
  also have "\<dots> = K / 2 ^ 53"
    using cpos by simp
  also have "\<dots> \<le> 2 ^ 20 / 2 ^ 53"
    using K2 by (simp add: divide_right_mono)
  finally have tk: "\<bar>t - of_int k\<bar> \<le> 2 ^ 20 / 2 ^ 53" .
  have Kk: "K = \<bar>of_int k\<bar>" by (simp add: K_def)
  have e1: "(2 ^ 20 / 2 ^ 53 :: real) \<le> 1 / 8" by simp
  have K2': "K \<le> 1048576" using K2 by simp
  from tk e1 have tk': "\<bar>t - of_int k\<bar> \<le> 1 / 8" by linarith
  from tk' K1 Kk have th: "1 / 2 \<le> \<bar>t\<bar>" by linarith
  from tk' K2' Kk have tu: "\<bar>t\<bar> \<le> 1048577" by linarith
  have t_lo: "1 / 2 ^ 10 \<le> \<bar>t\<bar>"
  proof -
    have "(1 / 2 ^ 10 :: real) \<le> 1 / 2" by simp
    with th show ?thesis by linarith
  qed
  have t_hi: "\<bar>t\<bar> \<le> 2 ^ 60"
  proof -
    have "(1048577 :: real) \<le> 2 ^ 60" by simp
    with tu show ?thesis by linarith
  qed
  have "\<bar>rnd t - t\<bar> \<le> \<bar>t\<bar> / 2 ^ 53"
    by (rule rounding_rel [OF dr t_lo t_hi])
  also have "\<dots> \<le> 1048577 / 2 ^ 53"
    using tu by (intro divide_right_mono) auto
  also have "\<dots> \<le> 1 / 8" by simp
  finally have "\<bar>rnd t - t\<bar> \<le> 1 / 8" .
  with tk' have "\<bar>rnd t - of_int k\<bar> < 1 / 2"
    by linarith
  then have "py_round (rnd t) = k"
    by (rule py_round_near)
  then show ?thesis
    by (simp add: t_def y_def a_def c_def)
qed

lemma rounding_zero: "double_rounding rnd \<Longrightarrow> rnd 0 = 0"
  using rounding_int [of rnd 0] by simp

lemma quotient_bounds:
  assumes dr: "double_rounding rnd" and xb: "\<bar>x\<bar> \<le> 360"
  shows "\<bar>x / rnd (5 / 100)\<bar> \<le> 7215"
    and "\<bar>x / rnd (5 / 100) - 20 * x\<bar> \<le> 7215 / 2 ^ 53"
proof -
  define c where "c = rnd (5 / 100)"
  have c: "499 / 10000 \<le> c" "c \<le> 501 / 10000"
    using c_bounds [OF dr] by (simp_all add: c_def)
  then have cpos: "0 < c" by linarith
  have "\<bar>x / c\<bar> = \<bar>x\<bar> / c" using cpos by simp
  also have "\<dots> \<le> 360 / c" using xb cpos by (intro divide_right_mono) auto
  also have "\<dots> \<le> 360 / (499 / 10000)" using c(1) by (intro divide_left_mono) auto
  also have "\<dots> \<le> 7215" by simp
  finally have s: "\<bar>x / c\<bar> \<le> 7215" .
  then show "\<bar>x / rnd (5 / 100)\<bar> \<le> 7215" by (simp add: c_def)
  have "\<bar>c - 5 / 100\<bar> \<le> (5 / 100) / 2 ^ 53"
    using c_bounds(1) [OF dr] by (simp add: c_def)
  then have "20 * \<bar>c - 5 / 100\<bar> \<le> 20 * ((5 / 100) / 2 ^ 53)"
    by (intro mult_left_mono) auto
  moreover have "\<bar>1 - 20 * c\<bar> = 20 * \<bar>c - 5 / 100\<bar>"
  proof -
    have "1 - 20 * c = (- 20) * (c - 5 / 100)" by simp
    then have "\<bar>1 - 20 * c\<bar> = \<bar>- 20\<bar> * \<bar>c - 5 / 100\<bar>"
      by (simp only: abs_mult)
    then show ?thesis by simp
  qed
  ultimately have d: "\<bar>1 - 20 * c\<bar> \<le> 1 / 2 ^ 53"
    by simp
  have "x / c - 20 * x = (x / c) * (1 - 20 * c)"
    using cpos by (simp add: field_simps)
  then have "\<bar>x / c - 20 * x\<bar> = \<bar>x / c\<bar> * \<bar>1 - 20 * c\<bar>"
    by (simp add: abs_mult)
  also have "\<dots> \<le> 7215 * (1 / 2 ^ 53)"
    using s d by (intro mult_mono) auto
  finally show "\<bar>x / rnd (5 / 100) - 20 * x\<bar> \<le> 7215 / 2 ^ 53"
    by (simp add: c_def)
qed

lemma index_near:
  assumes dr: "double_rounding rnd" and xb: "\<bar>x\<bar> \<le> 360"
  shows "\<bar>of_int (snap_index rnd x) - 20 * x\<bar> \<le> 1 / 2 + 1 / 10 ^ 9"
proof -
  define s where "s = x / rnd (5 / 100)"
  define k where "k = snap_index rnd x"
  have k: "k = py_round (rnd s)" by (simp add: k_def s_def snap_index_def)
  have s1: "\<bar>s\<bar> \<le> 7215" and s2: "\<bar>s - 20 * x\<bar> \<le> 7215 / 2 ^ 53"
    using quotient_bounds [OF dr xb] by (simp_all add: s_def)
  have e: "(7215 / 2 ^ 53 :: real) \<le> 1 / 10 ^ 10" by simp
  show ?thesis
  proof (cases "\<bar>s\<bar> \<le> 1 / 2 ^ 10")
    case True
    then have "\<bar>rnd s\<bar> \<le> 1 / 2 ^ 10" by (rule rounding_small [OF dr])
    then have "\<bar>rnd s - of_int 0\<bar> < 1 / 2" by simp
    then have "k = 0" unfolding k by (rule py_round_near)
    moreover have "\<bar>20 * x\<bar> \<le> 1 / 2"
    proof -
      have "(1 / 2 ^ 10 :: real) \<le> 1 / 4" by simp
      with True have t1: "\<bar>s\<bar> \<le> 1 / 4" by linarith
      have "(1 / 10 ^ 10 :: real) \<le> 1 / 4" by simp
      with s2 e have t2: "\<bar>s - 20 * x\<bar> \<le> 1 / 4" by linarith
      from t1 t2 show ?thesis by linarith
    qed
    ultimately show ?thesis unfolding k_def [symmetric] by simp
  next
    case False
    then have lo: "1 / 2 ^ 10 \<le> \<bar>s\<bar>" by simp
    have hi: "\<bar>s\<bar> \<le> 2 ^ 60"
    proof -
      have "(7215 :: real) \<le> 2 ^ 60" by simp
      with s1 show ?thesis by linarith
    qed
    have "\<bar>rnd s - s\<bar> \<le> \<bar>s\<bar> / 2 ^ 53" by (rule rounding_rel [OF dr lo hi])
    also have "\<dots> \<le> 7215 / 2 ^ 53" using s1 by (intro divide_right_mono) auto
    finally have r: "\<bar>rnd s - s\<bar> \<le> 1 / 10 ^ 10" using e by linarith
    have p: "\<bar>of_int k - rnd s\<bar> \<le> 1 / 2" unfolding k by (rule py_round_close)
    from s2 e have s2': "\<bar>s - 20 * x\<bar> \<le> 1 / 10 ^ 10" by linarith
    have "(1 / 10 ^ 10 + 1 / 10 ^ 10 :: real) \<le> 1 / 10 ^ 9" by simp
    with p r s2' show ?thesis unfolding k_def [symmetric] by linarith
  qed
qed

lemma index_bound:
  assumes dr: "double_rounding rnd" and xb: "\<bar>x\<bar> \<le> 360"
  shows "\<bar>snap_index rnd x\<bar> \<le> 7201"
proof -
  have e: "(1 / 10 ^ 9 :: real) \<le> 1 / 4" by simp
  from index_near [OF dr xb] xb e have "\<bar>real_of_int (snap_index rnd x)\<bar> < 7201"
    by linarith
  then have "real_of_int \<bar>snap_index rnd x\<bar> < real_of_int 7201" by simp
  then have "\<bar>snap_index rnd x\<bar> < 7201" by (simp only: of_int_less_iff)
  then show ?thesis by simp
qed

lemma snap05_value:
  assumes dr: "double_rounding rnd" and xb: "\<bar>x\<bar> \<le> 360"
  shows "snap05 rnd x = rnd (of_int (snap_index rnd x) * rnd (5 / 100))"
proof -
  have "\<bar>snap_index rnd x\<bar> \<le> 2 ^ 53"
    using index_bound [OF dr xb] by simp
  from rounding_int [OF dr this] show ?thesis
    by (simp add: snap05_def snap_index_def Let_def)
qed

lemma snap05_on_grid:
  assumes dr: "double_rounding rnd" and xb: "\<bar>x\<bar> \<le> 360"
  shows "\<bar>snap05 rnd x - of_int (snap_index rnd x) / 20\<bar> \<le> 1 / 10 ^ 12"
proof (cases "snap_index rnd x = 0")
  case True
  with snap05_value [OF dr xb] rounding_zero [OF dr] show ?thesis by simp
next
  case False
  define k where "k = snap_index rnd x"
  define c where "c = rnd (5 / 100)"
  define K where "K = \<bar>of_int k :: real\<bar>"
  define a where "a = of_int k * c"
  have c: "499 / 10000 \<le> c" "c \<le> 501 / 10000"
    using c_bounds [OF dr] by (simp_all add: c_def)
  then have cpos: "0 < c" by linarith
  have cd: "\<bar>c - 1 / 20\<bar> \<le> (1 / 20) / 2 ^ 53"
    using c_bounds(1) [OF dr] by (simp add: c_def)
  have K1: "1 \<le> K"
  proof -
    have "1 \<le> \<bar>k\<bar>" using False by (simp add: k_def) 
    then have "real_of_int 1 \<le> real_of_int \<bar>k\<bar>" by (simp only: of_int_le_iff)
    then show ?thesis by (simp add: K_def)
  qed
  have K2: "K \<le> 7201"
  proof -
    have "real_of_int \<bar>k\<bar> \<le> real_of_int 7201"
      using index_bound [OF dr xb] by (simp only: of_int_le_iff k_def)
    then show ?thesis by (simp add: K_def)
  qed
  have abs_a: "\<bar>a\<bar> = K * c"
    using cpos by (simp add: a_def K_def abs_mult)
  have a1: "1 * (499 / 10000) \<le> K * c"
    using K1 c(1) by (intro mult_mono) auto
  have a2: "K * c \<le> 7201 * (501 / 10000)"
    using K1 K2 c cpos by (intro mult_mono) auto
  have a_lo: "1 / 2 ^ 10 \<le> \<bar>a\<bar>" using a1 unfolding abs_a by simp
  have a_hi: "\<bar>a\<bar> \<le> 2 ^ 60" using a2 unfolding abs_a by simp
  have "\<bar>rnd a - a\<bar> \<le> \<bar>a\<bar> / 2 ^ 53" by (rule rounding_rel [OF dr a_lo a_hi])
  also have "\<dots> \<le> (7201 * (501 / 10000)) / 2 ^ 53"
    using a2 unfolding abs_a by (intro divide_right_mono) auto
  also have "\<dots> \<le> 1 / (2 * 10 ^ 12)" by simp
  finally have r: "\<bar>rnd a - a\<bar> \<le> 1 / (2 * 10 ^ 12)" .
  have "a - of_int k / 20 = of_int k * (c - 1 / 20)"
    by (simp add: a_def algebra_simps)
  then have "\<bar>a - of_int k / 20\<bar> = K * \<bar>c - 1 / 20\<bar>"
    by (simp add: abs_mult K_def)
  also have "\<dots> \<le> 7201 * ((1 / 20) / 2 ^ 53)"
    using K2 cd K1 by (intro mult_mono) auto
  also have "\<dots> \<le> 1 / (2 * 10 ^ 12)" by simp
  finally have g: "\<bar>a - of_int k / 20\<bar> \<le> 1 / (2 * 10 ^ 12)" .
  have "(1 / (2 * 10 ^ 12) + 1 / (2 * 10 ^ 12) :: real) = 1 / 10 ^ 12" by simp
  with r g have "\<bar>rnd a - of_int k / 20\<bar> \<le> 1 / 10 ^ 12" by linarith
  with snap05_value [OF dr xb] show ?thesis by (simp add: a_def k_def c_def)
qed

lemma snap05_resnap:
  assumes dr: "double_rounding rnd" and xb: "\<bar>x\<bar> \<le> 360"
  shows "snap05 rnd (snap05 rnd x) = snap05 rnd x"
proof -
  define k where "k = snap_index rnd x"
  have v: "snap05 rnd x = rnd (of_int k * rnd (5 / 100))"
    using snap05_value [OF dr xb] by (simp add: k_def)
  have kb: "\<bar>k\<bar> \<le> 7201" using index_bound [OF dr xb] by (simp add: k_def)
  have ri: "rnd (of_int k) = of_int k"
    using rounding_int [OF dr, of k] kb by simp
  show ?thesis
  proof (cases "k = 0")
    case True
    with v rounding_zero [OF dr] have z: "snap05 rnd x = 0" by simp
    have "py_round (0 :: real) = 0" by (simp add: py_round_def)
    then have "snap05 rnd 0 = 0"
      using rounding_zero [OF dr] by (simp add: snap05_def Let_def)
    with z show ?thesis by simp
  next
    case False
    have "\<bar>k\<bar> \<le> 2 ^ 20" using kb by simp
    from resnap [OF dr False this]
    have "py_round (rnd (snap05 rnd x / rnd (5 / 100))) = k" by (simp add: v)
    then have "snap05 rnd (snap05 rnd x) = rnd (rnd (of_int k) * rnd (5 / 100))"
      by (simp add: snap05_def Let_def)
    with ri v show ?thesis by simp
  qed
qed

lemma index_of_example:
  fixes x d :: real
  assumes n: "\<bar>of_int k - 20 * x\<bar> \<le> 1 / 2 + 1 / 10 ^ 9"
    and x: "\<bar>x - of_int m / 20 - d\<bar> \<le> 1 / 10 ^ 9"
    and d: "\<bar>d\<bar> \<le> 24 / 1000"
  shows "k = m"
proof -
  have e: "(1 / 10 ^ 9 :: real) \<le> 1 / 10000" by simp
  from x have "\<bar>20 * x - of_int m - 20 * d\<bar> \<le> 20 * (1 / 10 ^ 9)"
    by linarith
  with n d e have "\<bar>real_of_int k - real_of_int m\<bar> < 1"
    by linarith
  then have "\<bar>real_of_int (k - m)\<bar> < real_of_int 1" by simp
  then have "\<bar>k - m\<bar> < 1" by (simp only: of_int_abs [symmetric] of_int_less_iff)
  then show ?thesis by simp
qed

lemma exact_rounding: "double_rounding (\<lambda>x. x)"
  by (simp add: double_rounding_def)

lemma py_round_int: "py_round (of_int n) = n"
  by (rule py_round_near) simp

lemma py_round_bound:
  assumes "\<bar>v\<bar> \<le> of_int N"
  shows "\<bar>of_int (py_round v) :: real\<bar> \<le> of_int N"
proof -
  have c: "\<bar>of_int (py_round v) - v\<bar> \<le> 1 / 2" by (rule py_round_close)
  have "py_round v \<le> N"
  proof (rule ccontr)
    assume "\<not> py_round v \<le> N"
    then have "N + 1 \<le> py_round v" by simp
    then have "real_of_int (N + 1) \<le> real_of_int (py_round v)" by (simp only: of_int_le_iff)
    then have "real_of_int N + 1 \<le> real_of_int (py_round v)" by simp
    with c assms show False by linarith
  qed
  moreover have "- N \<le> py_round v"
  proof (rule ccontr)
    assume "\<not> - N \<le> py_round v"
    then have "py_round v \<le> - N - 1" by simp
    then have "real_of_int (py_round v) \<le> real_of_int (- N - 1)" by (simp only: of_int_le_iff)
    then have "real_of_int (py_round v) \<le> - real_of_int N - 1" by simp
    with c assms show False by linarith
  qed
  ultimately have "\<bar>py_round v\<bar> \<le> N" by simp
  then have "real_of_int \<bar>py_round v\<bar> \<le> real_of_int N" by (simp only: of_int_le_iff)
  then show ?thesis by simp
qed

lemma floor_log_bounds:
  assumes "0 < x"
  shows "2 powr of_int \<lfloor>log 2 x\<rfloor> \<le> x" and "x < 2 powr (of_int \<lfloor>log 2 x\<rfloor> + 1)"
proof -
  have "of_int \<lfloor>log 2 x\<rfloor> \<le> log 2 x" by simp
  then have "2 powr of_int \<lfloor>log 2 x\<rfloor> \<le> 2 powr log 2 x" by (simp add: powr_mono)
  with assms show "2 powr of_int \<lfloor>log 2 x\<rfloor> \<le> x" by simp
  have "log 2 x < of_int \<lfloor>log 2 x\<rfloor> + 1" by linarith
  then have "2 powr log 2 x < 2 powr (of_int \<lfloor>log 2 x\<rfloor> + 1)" by (simp add: powr_less_mono)
  with assms show "x < 2 powr (of_int \<lfloor>log 2 x\<rfloor> + 1)" by simp
qed

lemma fl64_error:
  assumes "x \<noteq> 0"
  shows "\<bar>fl64 x - x\<bar> \<le> 2 powr of_int (max (\<lfloor>log 2 \<bar>x\<bar>\<rfloor> - 52) (- 1074)) / 2"
proof -
  define e where "e = max (\<lfloor>log 2 \<bar>x\<bar>\<rfloor> - 52) (- 1074)"
  define s :: real where "s = 2 powr of_int e"
  have spos: "0 < s" by (simp add: s_def)
  have f: "fl64 x = of_int (py_round (x / s)) * s"
    using assms by (simp add: fl64_def Let_def e_def s_def)
  have "fl64 x - x = (of_int (py_round (x / s)) - x / s) * s"
    using spos by (simp add: f field_simps)
  then have "\<bar>fl64 x - x\<bar> = \<bar>of_int (py_round (x / s)) - x / s\<bar> * s"
    using spos by (simp add: abs_mult)
  also have "\<dots> \<le> (1 / 2) * s"
    using py_round_close [of "x / s"] spos by (intro mult_right_mono) auto
  finally show ?thesis by (simp add: s_def e_def)
qed

lemma powr2_int: "0 \<le> m \<Longrightarrow> (2 :: real) powr of_int m = 2 ^ nat m"
  by (simp add: powr_real_of_int)

lemma powr2_shift: "(2 :: real) powr of_int (a - b) = 2 powr of_int a / 2 powr of_int b"
  by (simp add: powr_diff)

lemma fl64_relative:
  assumes lo: "1 / 2 ^ 10 \<le> \<bar>x\<bar>" and hi: "\<bar>x\<bar> \<le> 2 ^ 60"
  shows "\<bar>fl64 x - x\<bar> \<le> \<bar>x\<bar> / 2 ^ 53"
proof -
  define E where "E = \<lfloor>log 2 \<bar>x\<bar>\<rfloor>"
  have "(0 :: real) < 1 / 2 ^ 10" by simp
  with lo have xpos: "0 < \<bar>x\<bar>" by linarith
  then have x0: "x \<noteq> 0" by simp
  have b: "2 powr of_int E \<le> \<bar>x\<bar>" "\<bar>x\<bar> < 2 powr (of_int E + 1)"
    using floor_log_bounds [OF xpos] by (simp_all add: E_def)
  have "(2 :: real) powr (- 10) = 1 / 2 ^ 10"
    by (simp add: powr_minus_divide)
  with lo b(2) have "(2 :: real) powr (- 10) < 2 powr (of_int E + 1)" by linarith
  then have "- 10 < real_of_int E + 1" by simp
  then have "real_of_int (- 11) < real_of_int E" by simp
  then have "- 11 < E" by (simp only: of_int_less_iff)
  then have e: "max (E - 52) (- 1074) = E - 52" by simp
  have "\<bar>fl64 x - x\<bar> \<le> 2 powr of_int (E - 52) / 2"
    using fl64_error [OF x0] e by (simp add: E_def)
  also have "(2 :: real) powr of_int (E - 52) = 2 powr of_int E / 2 ^ 52"
    using powr2_shift [of E 52] powr2_int [of 52] by simp
  also have "(2 :: real) powr of_int E / 2 ^ 52 / 2 = 2 powr of_int E / 2 ^ 53"
    by simp
  also have "\<dots> \<le> \<bar>x\<bar> / 2 ^ 53"
    using b(1) by (intro divide_right_mono) auto
  finally show ?thesis .
qed

lemma fl64_small:
  assumes "\<bar>x\<bar> \<le> 1 / 2 ^ 10"
  shows "\<bar>fl64 x\<bar> \<le> 1 / 2 ^ 10"
proof (cases "x = 0")
  case True
  then show ?thesis by (simp add: fl64_def)
next
  case False
  define E where "E = \<lfloor>log 2 \<bar>x\<bar>\<rfloor>"
  define e where "e = max (E - 52) (- 1074)"
  define s :: real where "s = 2 powr of_int e"
  define N :: int where "N = 2 ^ nat (- 10 - e)"
  have xpos: "0 < \<bar>x\<bar>" using False by simp
  have spos: "0 < s" by (simp add: s_def)
  have b: "2 powr of_int E \<le> \<bar>x\<bar>"
    using floor_log_bounds [OF xpos] by (simp add: E_def)
  have p10: "(2 :: real) powr (- 10) = 1 / 2 ^ 10"
    by (simp add: powr_minus_divide)
  with assms b have "(2 :: real) powr of_int E \<le> 2 powr (- 10)" by linarith
  then have "real_of_int E \<le> - 10" by simp
  then have "real_of_int E \<le> real_of_int (- 10)" by simp
  then have "E \<le> - 10" by (simp only: of_int_le_iff)
  then have e10: "e \<le> - 10" by (simp add: e_def)
  have "real_of_int N = 2 powr of_int (- 10 - e)"
    using e10 powr2_int [of "- 10 - e"] by (simp only: N_def) simp
  also have "\<dots> = 2 powr of_int (- 10) / s"
    unfolding s_def by (rule powr2_shift)
  finally have N: "real_of_int N = (1 / 2 ^ 10) / s" using p10 by simp
  have "\<bar>x / s\<bar> = \<bar>x\<bar> / s" using spos by simp
  also have "\<dots> \<le> (1 / 2 ^ 10) / s" using assms spos by (intro divide_right_mono) auto
  finally have "\<bar>x / s\<bar> \<le> real_of_int N" by (simp add: N)
  then have r: "\<bar>real_of_int (py_round (x / s))\<bar> \<le> real_of_int N" by (rule py_round_bound)
  have f: "fl64 x = of_int (py_round (x / s)) * s"
    using False by (simp add: fl64_def Let_def e_def E_def s_def)
  have "\<bar>fl64 x\<bar> = \<bar>real_of_int (py_round (x / s))\<bar> * s"
    using spos by (simp add: f abs_mult)
  also have "\<dots> \<le> real_of_int N * s"
    using r spos by (intro mult_right_mono) auto
  also have "\<dots> = 1 / 2 ^ 10" using spos by (simp add: N)
  finally show ?thesis .
qed

lemma fl64_int:
  assumes "\<bar>k\<bar> \<le> 2 ^ 53"
  shows "fl64 (of_int k) = of_int k"
proof (cases "k = 0")
  case True
  then show ?thesis by (simp add: fl64_def)
next
  case False
  define x :: real where "x = of_int k"
  define E where "E = \<lfloor>log 2 \<bar>x\<bar>\<rfloor>"
  have x1: "1 \<le> \<bar>x\<bar>"
  proof -
    have "1 \<le> \<bar>k\<bar>" using False by linarith
    then have "real_of_int 1 \<le> real_of_int \<bar>k\<bar>" by (simp only: of_int_le_iff)
    then show ?thesis by (simp add: x_def)
  qed
  have x2: "\<bar>x\<bar> \<le> 2 ^ 53"
  proof -
    have "real_of_int \<bar>k\<bar> \<le> real_of_int (2 ^ 53)" using assms by (simp only: of_int_le_iff)
    then show ?thesis by (simp add: x_def)
  qed
  have xpos: "0 < \<bar>x\<bar>" using x1 by linarith
  then have x0: "x \<noteq> 0" by simp
  have b: "2 powr of_int E \<le> \<bar>x\<bar>" "\<bar>x\<bar> < 2 powr (of_int E + 1)"
    using floor_log_bounds [OF xpos] by (simp_all add: E_def)
  have "(2 :: real) powr 0 < 2 powr (of_int E + 1)" using b(2) x1 by simp
  then have "0 < real_of_int E + 1" by (rule powr_less_cancel) simp
  then have "real_of_int (- 1) < real_of_int E" by simp
  then have "- 1 < E" by (simp only: of_int_less_iff)
  then have E0: "0 \<le> E" by simp
  have "(2 :: real) powr 53 = 2 ^ 53" by simp
  with b(1) x2 have h53: "(2 :: real) powr of_int E \<le> 2 powr 53" by linarith
  have two: "1 < (2 :: real)" by simp
  from powr_le_cancel_iff [OF two] h53 have "real_of_int E \<le> 53" by blast
  then have "real_of_int E \<le> real_of_int 53" by simp
  then have E53: "E \<le> 53" by (simp only: of_int_le_iff)
  define e where "e = E - 52"
  have e: "max (E - 52) (- 1074) = e" using E0 by (simp add: e_def)
  define s :: real where "s = 2 powr of_int e"
  have spos: "0 < s" by (simp add: s_def)
  have f: "fl64 x = of_int (py_round (x / s)) * s"
    using x0 e by (simp add: fl64_def Let_def E_def s_def)
  have "\<exists>n :: int. x / s = of_int n"
  proof (cases "e \<le> 0")
    case True
    then have "s = inverse (2 ^ nat (- e))"
      by (cases "e = 0") (simp_all add: s_def powr_real_of_int)
    then have "x / s = of_int (k * 2 ^ nat (- e))"
      by (simp add: x_def divide_inverse)
    then show ?thesis by blast
  next
    case False
    with E53 have e1: "e = 1" by (simp add: e_def)
    then have E: "E = 53" by (simp add: e_def)
    with b(1) x2 have "\<bar>x\<bar> = 2 ^ 53" by simp
    then have "real_of_int \<bar>k\<bar> = real_of_int (2 ^ 53)" by (simp add: x_def)
    then have "\<bar>k\<bar> = 2 ^ 53" by (simp only: of_int_eq_iff)
    then have "even \<bar>k\<bar>" by simp
    then have "even k" by simp
    then have "k = 2 * (k div 2)" by simp
    then have "x = 2 * of_int (k div 2)"
      by (metis of_int_mult of_int_numeral x_def)
    moreover have "s = 2" using e1 by (simp add: s_def)
    ultimately have "x / s = of_int (k div 2)" by simp
    then show ?thesis by blast
  qed
  then obtain n :: int where n: "x / s = of_int n" by blast
  then have "py_round (x / s) = n" by (simp add: py_round_int)
  with f n spos have "fl64 x = x" by (metis nonzero_eq_divide_eq less_irrefl)
  then show ?thesis by (simp add: x_def)
qed

lemma fl64_double_rounding: "double_rounding fl64"
  unfolding double_rounding_def
  using fl64_relative fl64_small fl64_int by blast

text \<open>
  Claim C6. For every coordinate \<open>x\<close> of at most 360 degrees in magnitude and every
  rounding of doubles, snapping is idempotent: snapping the snapped value gives the same
  double again. The snapped value is the double nearest to \<open>k\<close> times the double
  0.05, where \<open>k\<close> is the integer nearest to \<open>x / 0.05\<close> (up to the rounding of the
  quotient, 1e-9, where \<open>x\<close> lies half way between two grid lines); it lies within
  1e-12 of the multiple \<open>k * 0.05\<close> of the grid. An input within 1e-9 of 149.123
  snaps to the multiple 2982, the value 149.10, and an input within 1e-9 of -35.456 to
  the multiple -709, the value -35.45, each up to 1e-12, far below the two decimals that
  the request prints.
\<close>

theorem snap05_grid:
  assumes "double_rounding rnd" and "\<bar>x\<bar> \<le> 360"
  shows "snap05 rnd (snap05 rnd x) = snap05 rnd x
       \<and> snap05 rnd x = rnd (of_int (snap_index rnd x) * rnd (5 / 100))
       \<and> \<bar>of_int (snap_index rnd x) - x / (5 / 100)\<bar> \<le> 1 / 2 + 1 / 10 ^ 9
       \<and> \<bar>snap05 rnd x - of_int (snap_index rnd x) * (5 / 100)\<bar> \<le> 1 / 10 ^ 12
       \<and> (\<bar>x - 149.123\<bar> \<le> 1 / 10 ^ 9 \<longrightarrow>
            snap_index rnd x = 2982 \<and> \<bar>snap05 rnd x - 149.10\<bar> \<le> 1 / 10 ^ 12)
       \<and> (\<bar>x - (- 35.456)\<bar> \<le> 1 / 10 ^ 9 \<longrightarrow>
            snap_index rnd x = - 709 \<and> \<bar>snap05 rnd x - (- 35.45)\<bar> \<le> 1 / 10 ^ 12)"
proof -
  note near = index_near [OF assms]
  note grid = snap05_on_grid [OF assms]
  have a: "\<bar>x - 149.123\<bar> \<le> 1 / 10 ^ 9 \<longrightarrow>
            snap_index rnd x = 2982 \<and> \<bar>snap05 rnd x - 149.10\<bar> \<le> 1 / 10 ^ 12"
  proof
    assume h: "\<bar>x - 149.123\<bar> \<le> 1 / 10 ^ 9"
    have "snap_index rnd x = 2982"
    proof (rule index_of_example [OF near])
      show "\<bar>x - of_int 2982 / 20 - 23 / 1000\<bar> \<le> 1 / 10 ^ 9" using h by simp
      show "\<bar>23 / 1000 :: real\<bar> \<le> 24 / 1000" by simp
    qed
    with grid show "snap_index rnd x = 2982 \<and> \<bar>snap05 rnd x - 149.10\<bar> \<le> 1 / 10 ^ 12"
      by simp
  qed
  have b: "\<bar>x - (- 35.456)\<bar> \<le> 1 / 10 ^ 9 \<longrightarrow>
            snap_index rnd x = - 709 \<and> \<bar>snap05 rnd x - (- 35.45)\<bar> \<le> 1 / 10 ^ 12"
  proof
    assume h: "\<bar>x - (- 35.456)\<bar> \<le> 1 / 10 ^ 9"
    have "snap_index rnd x = - 709"
    proof (rule index_of_example [OF near])
      show "\<bar>x - of_int (- 709) / 20 - (- 6 / 1000)\<bar> \<le> 1 / 10 ^ 9" using h by (simp add: add.commute)
      show "\<bar>- 6 / 1000 :: real\<bar> \<le> 24 / 1000" by simp
    qed
    with grid show "snap_index rnd x = - 709 \<and> \<bar>snap05 rnd x - (- 35.45)\<bar> \<le> 1 / 10 ^ 12"
      by simp
  qed
  have near': "\<bar>of_int (snap_index rnd x) - x / (5 / 100)\<bar> \<le> 1 / 2 + 1 / 10 ^ 9"
    using near by (simp add: mult.commute)
  have grid': "\<bar>snap05 rnd x - of_int (snap_index rnd x) * (5 / 100)\<bar> \<le> 1 / 10 ^ 12"
    using grid by simp
  from snap05_resnap [OF assms] snap05_value [OF assms] near' grid' a b
  show ?thesis by blast
qed

theorem snap05_grid_witness:
  "double_rounding fl64 \<and> \<bar>149.123 :: real\<bar> \<le> 360
   \<and> snap05 fl64 (snap05 fl64 149.123) = snap05 fl64 149.123
   \<and> snap_index fl64 149.123 = 2982
   \<and> \<bar>snap05 fl64 149.123 - 149.10\<bar> \<le> 1 / 10 ^ 12"
proof -
  have b: "\<bar>149.123 :: real\<bar> \<le> 360" by simp
  have n: "\<bar>149.123 - 149.123 :: real\<bar> \<le> 1 / 10 ^ 9" by simp
  note t = snap05_grid [OF fl64_double_rounding b]
  from t n have k: "snap_index fl64 149.123 = 2982"
    and v: "\<bar>snap05 fl64 149.123 - 149.10\<bar> \<le> 1 / 10 ^ 12"
    by blast+
  from t have i: "snap05 fl64 (snap05 fl64 149.123) = snap05 fl64 149.123"
    by blast
  from fl64_double_rounding b i k v show ?thesis by blast
qed

end
